theory Spec2Isabelle
  imports Main "HOL-Library.Sublist"
begin

section \<open>Presentation side: the custom command item\<close>

text \<open>
  JavaScript strings are modelled as \<^typ>\<open>string\<close>, one \<^typ>\<open>char\<close> per code unit;
  the three non-ASCII glyphs of the console messages are written as their UTF-8 bytes.
  A plain object whose own properties hold strings is a finite map from property name to
  value. Objects live in a store and are referred to by reference, so that "the same
  object" and "an equal object" differ.
\<close>

type_synonym obj = "string \<rightharpoonup> string"

type_synonym ref = nat

type_synonym heap = "obj list"

datatype error = TypeError

text \<open>
  The assignment \<^verbatim>\<open>o[k] = v\<close> of a string to a property of a plain object. Every
  plain object inherits the accessor \<^verbatim>\<open>__proto__\<close> from \<^verbatim>\<open>Object.prototype\<close>; an
  assignment under that key runs the accessor's setter, which ignores a value that is
  not an object, so no own property is made. Under every other key the assignment makes
  or overwrites the own property.
\<close>

definition assign :: "obj \<Rightarrow> string \<Rightarrow> string \<Rightarrow> obj" where
  "assign obj k v = (if k = ''__proto__'' then obj else obj(k \<mapsto> v))"

record Arg =
  name :: string
  type_hint :: "string option"

text \<open>
  The type \<^verbatim>\<open>CustomCommand\<close> is imported from the UI package. Its fields are those the
  component reads; an absent optional field is \<^const>\<open>None\<close>. The type of \<^verbatim>\<open>id\<close> is a
  parameter.
\<close>

record 'i CustomCommand =
  clientId :: string
  id' :: 'i
  command :: string
  title :: "string option"
  description :: "string option"
  args :: "Arg list option"

record Payload =
  argName :: string
  newValue :: string

record Action =
  type :: string
  payload :: "Payload option"

subsection \<open>The copy-on-write update of the immer library\<close>

text \<open>
  \<^verbatim>\<open>produce(base, recipe)\<close> hands the recipe a draft of \<^verbatim>\<open>base\<close>. Writes go to a copy;
  a write of the value a property already has is no change, and a write under
  \<^verbatim>\<open>__proto__\<close> is passed to the inherited setter, which does nothing with a string and
  leaves the draft unmodified. The result is a fresh object when the recipe changed
  something and \<^verbatim>\<open>base\<close> itself otherwise. The base object is never written.
\<close>

record draft =
  base' :: obj
  copy' :: obj
  modified' :: bool

definition createDraft :: "obj \<Rightarrow> draft" where
  "createDraft b = \<lparr>base' = b, copy' = b, modified' = False\<rparr>"

definition draft_set :: "draft \<Rightarrow> string \<Rightarrow> string \<Rightarrow> draft" where
  "draft_set d p v =
     (if p = ''__proto__'' then d
      else if copy' d p = Some v then d
      else d\<lparr>copy' := assign (copy' d) p v, modified' := True\<rparr>)"

definition produce :: "heap \<Rightarrow> ref \<Rightarrow> (draft \<Rightarrow> draft) \<Rightarrow> heap \<times> ref" where
  "produce h base recipe =
     (let d = recipe (createDraft (h ! base))
      in if modified' d then (h @ [copy' d], length h) else (h, base))"

subsection \<open>The reducer\<close>

text \<open>
  \<^verbatim>\<open>customCommandItemReducer(state, action)\<close>. Reading \<^verbatim>\<open>action.payload.argName\<close>
  of an action without payload throws a TypeError.
\<close>

definition customCommandItemReducer :: "heap \<Rightarrow> ref \<Rightarrow> Action \<Rightarrow> error + heap \<times> ref" where
  "customCommandItemReducer h state action =
     (if type action = ''UPDATE_ARG'' then
        (case payload action of
           None \<Rightarrow> Inl TypeError
         | Some p \<Rightarrow>
             Inr (produce h state (\<lambda>draftState. draft_set draftState (argName p) (newValue p))))
      else Inr (h, state))"

subsection \<open>The component \<^verbatim>\<open>CustomCommandItem\<close>\<close>

text \<open>The lazy initialiser given to \<^verbatim>\<open>useReducer\<close>: one entry per declared argument.\<close>

definition initArgMap :: "Arg list option \<Rightarrow> obj" where
  "initArgMap as =
     (case as of
        None \<Rightarrow> Map.empty
      | Some as' \<Rightarrow> foldl (\<lambda>argMap arg. assign argMap (name arg) '''') Map.empty as')"

text \<open>Mounting the component allocates its initial state.\<close>

definition mountItem :: "heap \<Rightarrow> 'i CustomCommand \<Rightarrow> heap \<times> ref" where
  "mountItem h customCommand = (h @ [initArgMap (args customCommand)], length h)"

text \<open>The action dispatched by the \<^verbatim>\<open>onChange\<close> handler of the input of \<^verbatim>\<open>arg\<close>.\<close>

definition onChange :: "Arg \<Rightarrow> string \<Rightarrow> Action" where
  "onChange arg v = \<lparr>type = ''UPDATE_ARG'', payload = Some \<lparr>argName = name arg, newValue = v\<rparr>\<rparr>"

text \<open>Dispatching a sequence of actions; a throwing reducer ends it.\<close>

fun dispatchAll :: "heap \<Rightarrow> ref \<Rightarrow> Action list \<Rightarrow> error + heap \<times> ref" where
  "dispatchAll h state [] = Inr (h, state)"
| "dispatchAll h state (a # as) =
     (case customCommandItemReducer h state a of
        Inl e \<Rightarrow> Inl e
      | Inr (h', state') \<Rightarrow> dispatchAll h' state' as)"

text \<open>The \<^verbatim>\<open>onClick\<close> handler of the send button: the arguments of \<^verbatim>\<open>sendCustomCommand\<close>.\<close>

definition onClick :: "'i CustomCommand \<Rightarrow> heap \<Rightarrow> ref \<Rightarrow> string \<times> obj" where
  "onClick customCommand h state = (command customCommand, h ! state)"

subsection \<open>The component \<^verbatim>\<open>CustomCommands\<close>: search and rendering\<close>

text \<open>\<^verbatim>\<open>x || ""\<close> on an optional string: absent and empty are both falsy.\<close>

definition orEmpty :: "string option \<Rightarrow> string" where
  "orEmpty x = (case x of None \<Rightarrow> '''' | Some s \<Rightarrow> if s = '''' then '''' else s)"

text \<open>
  \<^verbatim>\<open>s.indexOf(searchString)\<close>: the least position at which \<^verbatim>\<open>searchString\<close> occurs in
  \<^verbatim>\<open>s\<close>, or -1.
\<close>

definition indexOf :: "string \<Rightarrow> string \<Rightarrow> int" where
  "indexOf s searchString =
     (case find (\<lambda>k. take (length searchString) (drop k s) = searchString) [0..<Suc (length s)] of
        None \<Rightarrow> - 1
      | Some k \<Rightarrow> int k)"

text \<open>
  The filter of \<^verbatim>\<open>CustomCommands\<close>. \<^verbatim>\<open>String.prototype.toLowerCase\<close> belongs to the
  runtime and is a parameter.
\<close>

definition filteredCustomCommands ::
  "(string \<Rightarrow> string) \<Rightarrow> string \<Rightarrow> 'i CustomCommand list \<Rightarrow> 'i CustomCommand list" where
  "filteredCustomCommands toLowerCase search customCommands =
     (let lowerSearch = toLowerCase search
      in if search \<noteq> '''' then
           filter (\<lambda>cc.
               indexOf (toLowerCase (command cc)) lowerSearch > - 1 \<or>
               indexOf (toLowerCase (orEmpty (title cc))) lowerSearch > - 1 \<or>
               indexOf (toLowerCase (orEmpty (description cc))) lowerSearch > - 1)
             customCommands
         else customCommands)"

text \<open>
  The React key of an item, \<^verbatim>\<open>`${cc.clientId}-${cc.id}`\<close>. The conversion of an id to
  its text is a parameter, as the type of ids is.
\<close>

definition itemKey :: "('i \<Rightarrow> string) \<Rightarrow> 'i CustomCommand \<Rightarrow> string" where
  "itemKey toString cc = clientId cc @ ''-'' @ toString (id' cc)"

datatype 'i rendered = EmptyState | Items "(string \<times> 'i CustomCommand) list"

definition renderCommands ::
  "('i \<Rightarrow> string) \<Rightarrow> (string \<Rightarrow> string) \<Rightarrow> string \<Rightarrow> 'i CustomCommand list \<Rightarrow> 'i rendered" where
  "renderCommands toString toLowerCase search customCommands =
     (if length customCommands = 0 then EmptyState
      else Items (map (\<lambda>cc. (itemKey toString cc, cc))
                    (filteredCustomCommands toLowerCase search customCommands)))"

text \<open>
  Instances of the two parameters: lower-casing of the ASCII letters, and the decimal
  text of an integer id (the text JavaScript gives an integral number below \<open>10\<^sup>2\<^sup>1\<close>).
\<close>

definition asciiLower :: "string \<Rightarrow> string" where
  "asciiLower s =
     map (\<lambda>c. let n = (of_char c :: nat) in if 65 \<le> n \<and> n \<le> 90 then char_of (n + 32) else c) s"

definition digitChar :: "nat \<Rightarrow> char" where
  "digitChar d = ''0123456789'' ! d"

fun natToString :: "nat \<Rightarrow> string" where
  "natToString n =
     (if n < 10 then [digitChar n] else natToString (n div 10) @ [digitChar (n mod 10)])"

declare natToString.simps [simp del]

definition intToString :: "int \<Rightarrow> string" where
  "intToString i = (if i < 0 then ''-'' @ natToString (nat (- i)) else natToString (nat i))"

section \<open>The command-line entry point\<close>

subsection \<open>Argument parsing\<close>

text \<open>
  A JavaScript number as \<^verbatim>\<open>parseInt\<close> can return it: not a number, an infinity, or an
  integer. \<^verbatim>\<open>parseInt\<close> itself belongs to the runtime and is a parameter of the parser.
\<close>

datatype number = NaN | PosInfinity | NegInfinity | Finite int

definition isNaN :: "number \<Rightarrow> bool" where
  "isNaN x = (x = NaN)"

text \<open>The object \<^verbatim>\<open>wssOptions\<close>: each of its four properties is set or not.\<close>

record WssServerOptions =
  pathToPfx :: "string option"
  pathToCert :: "string option"
  pathToKey :: "string option"
  passphrase :: "string option"

record ServerOptions =
  port :: number
  wss :: "WssServerOptions option"

record ParsedArgs = ServerOptions +
  help' :: bool

text \<open>A console line: literal text with the interpolated numbers kept as numbers.\<close>

datatype part = Str string | Num number

type_synonym message = "part list"

text \<open>\<^verbatim>\<open>Object.keys(wssOptions).length\<close>\<close>

definition keysLength :: "WssServerOptions \<Rightarrow> nat" where
  "keysLength w =
     length (filter (\<lambda>v. v \<noteq> None) [pathToPfx w, pathToCert w, pathToKey w, passphrase w])"

text \<open>
  The loop of \<^verbatim>\<open>parseArgs\<close> over the arguments from index \<^verbatim>\<open>i\<close> on. A
  \<^verbatim>\<open>console.error\<close> followed by \<^verbatim>\<open>process.exit(1)\<close> is \<^const>\<open>Inl\<close> of the line
  and the exit code.
\<close>

fun parseLoop ::
  "(string \<Rightarrow> number) \<Rightarrow> string list \<Rightarrow> ParsedArgs \<Rightarrow> WssServerOptions
     \<Rightarrow> message \<times> int + ParsedArgs \<times> WssServerOptions" where
  "parseLoop parseInt [] result wssOptions = Inr (result, wssOptions)"
| "parseLoop parseInt (arg # rest) result wssOptions =
     (if arg = ''--help'' \<or> arg = ''-h'' then
        parseLoop parseInt rest (result\<lparr>help' := True\<rparr>) wssOptions
      else if arg = ''--port'' \<or> arg = ''-p'' then
        (case rest of
           [] \<Rightarrow> Inl ([Str ''--port requires a value''], 1)
         | v # rest' \<Rightarrow>
             if isNaN (parseInt v) then Inl ([Str (''Invalid port: '' @ v)], 1)
             else parseLoop parseInt rest' (result\<lparr>port := parseInt v\<rparr>) wssOptions)
      else if arg = ''--wss-pfx'' then
        (case rest of
           [] \<Rightarrow> Inl ([Str ''--wss-pfx requires a path''], 1)
         | v # rest' \<Rightarrow> parseLoop parseInt rest' result (wssOptions\<lparr>pathToPfx := Some v\<rparr>))
      else if arg = ''--wss-cert'' then
        (case rest of
           [] \<Rightarrow> Inl ([Str ''--wss-cert requires a path''], 1)
         | v # rest' \<Rightarrow> parseLoop parseInt rest' result (wssOptions\<lparr>pathToCert := Some v\<rparr>))
      else if arg = ''--wss-key'' then
        (case rest of
           [] \<Rightarrow> Inl ([Str ''--wss-key requires a path''], 1)
         | v # rest' \<Rightarrow> parseLoop parseInt rest' result (wssOptions\<lparr>pathToKey := Some v\<rparr>))
      else if arg = ''--wss-passphrase'' then
        (case rest of
           [] \<Rightarrow> Inl ([Str ''--wss-passphrase requires a value''], 1)
         | v # rest' \<Rightarrow> parseLoop parseInt rest' result (wssOptions\<lparr>passphrase := Some v\<rparr>))
      else Inl ([Str (''Unknown argument: '' @ arg)], 1))"

definition parseArgs :: "(string \<Rightarrow> number) \<Rightarrow> string list \<Rightarrow> message \<times> int + ParsedArgs" where
  "parseArgs parseInt argv =
     (case parseLoop parseInt argv
             \<lparr>port = Finite 9090, wss = None, help' = False\<rparr>
             \<lparr>pathToPfx = None, pathToCert = None, pathToKey = None, passphrase = None\<rparr> of
        Inl e \<Rightarrow> Inl e
      | Inr (result, wssOptions) \<Rightarrow>
          Inr (if keysLength wssOptions > 0 then result\<lparr>wss := Some wssOptions\<rparr> else result))"

text \<open>
  An instance of the parameter, for evaluating examples: \<^verbatim>\<open>parseInt(s, 10)\<close> on an
  ASCII string (leading white space, an optional sign, then the longest run of digits),
  exact as long as the value is below \<open>2\<^sup>5\<^sup>3\<close> in magnitude.
\<close>

definition isDigit :: "char \<Rightarrow> bool" where
  "isDigit c = (48 \<le> (of_char c :: nat) \<and> (of_char c :: nat) \<le> 57)"

definition digitsValue :: "string \<Rightarrow> int" where
  "digitsValue ds = foldl (\<lambda>acc c. 10 * acc + (int (of_char c) - 48)) 0 ds"

definition parseInt10 :: "string \<Rightarrow> number" where
  "parseInt10 s =
     (let t = dropWhile (\<lambda>c. c \<in> set [CHR 0x09, CHR 0x0A, CHR 0x0B, CHR 0x0C, CHR 0x0D, CHR 0x20]) s;
          neg = (t \<noteq> [] \<and> hd t = CHR ''-'');
          u = (if t \<noteq> [] \<and> (hd t = CHR ''-'' \<or> hd t = CHR ''+'') then tl t else t);
          ds = takeWhile isDigit u
      in if ds = [] then NaN
         else Finite (if neg then - digitsValue ds else digitsValue ds))"

subsection \<open>The process and the server it drives\<close>

text \<open>
  The server is built by \<^verbatim>\<open>createServer\<close> of the server package and is the environment
  of the entry point. The events it emits carry the arguments the handlers read, of the
  types the handlers expect. \<^verbatim>\<open>createServer\<close> and \<^verbatim>\<open>server.start()\<close> may throw, which
  is what the \<^verbatim>\<open>catch\<close> of the entry point is for; \<^verbatim>\<open>server.on\<close> and
  \<^verbatim>\<open>server.stop()\<close> return. The process ends through the \<^verbatim>\<open>process.exit\<close> calls of
  the entry point, or through a signal it has no handler for; an exception escaping from
  the server's own callbacks is not part of the model.
\<close>

record Connection =
  conn_name :: "string option"
  address :: string

datatype event =
    EvStart
  | EvPortUnavailable number
  | EvConnect
  | EvConnectionEstablished Connection
  | EvDisconnect Connection
  | EvCommand string
  | EvStop

fun eventName :: "event \<Rightarrow> string" where
  "eventName EvStart = ''start''"
| "eventName (EvPortUnavailable _) = ''portUnavailable''"
| "eventName EvConnect = ''connect''"
| "eventName (EvConnectionEstablished _) = ''connectionEstablished''"
| "eventName (EvDisconnect _) = ''disconnect''"
| "eventName (EvCommand _) = ''command''"
| "eventName EvStop = ''stop''"

datatype signal = SIGINT | SIGTERM

record process =
  stdout :: "message list"
  stderr :: "message list"
  exitCode :: "int option"
  server :: "ServerOptions option"
  listeners :: "string list"
  signalHandlers :: "signal list"
  startCalls :: nat
  stopCalls :: nat

definition initialProcess :: process where
  "initialProcess =
     \<lparr>stdout = [], stderr = [], exitCode = None, server = None, listeners = [],
      signalHandlers = [], startCalls = 0, stopCalls = 0\<rparr>"

text \<open>The effects of a handler; a process that has exited does nothing more.\<close>

definition console_log :: "message \<Rightarrow> process \<Rightarrow> process" where
  "console_log m p = (if exitCode p = None then p\<lparr>stdout := stdout p @ [m]\<rparr> else p)"

definition console_error :: "message \<Rightarrow> process \<Rightarrow> process" where
  "console_error m p = (if exitCode p = None then p\<lparr>stderr := stderr p @ [m]\<rparr> else p)"

definition process_exit :: "int \<Rightarrow> process \<Rightarrow> process" where
  "process_exit c p = (if exitCode p = None then p\<lparr>exitCode := Some c\<rparr> else p)"

definition server_on :: "string \<Rightarrow> process \<Rightarrow> process" where
  "server_on n p = (if exitCode p = None then p\<lparr>listeners := listeners p @ [n]\<rparr> else p)"

definition process_on :: "signal \<Rightarrow> process \<Rightarrow> process" where
  "process_on s p = (if exitCode p = None then p\<lparr>signalHandlers := signalHandlers p @ [s]\<rparr> else p)"

definition check_mark :: string where
  "check_mark = [CHR 0xE2, CHR 0x9C, CHR 0x93]"

definition cross_mark :: string where
  "cross_mark = [CHR 0xE2, CHR 0x9C, CHR 0x97]"

definition right_arrow :: string where
  "right_arrow = [CHR 0xE2, CHR 0x86, CHR 0x92]"

definition LF :: char where
  "LF = CHR 0x0A"

definition helpText :: string where
  "helpText = LF # concat (map (\<lambda>l. l @ [LF])
     [''Reactotron Server CLI'',
      '''',
      ''Usage:'',
      ''  reactotron-core-server [options]'',
      '''',
      ''Options:'',
      ''  -p, --port <number>              Port to listen on (default: 9090)'',
      ''  -h, --help                       Show this help message'',
      '''',
      ''TLS/WSS Options:'',
      ''  --wss-pfx <path>                 Path to PFX certificate file'',
      ''  --wss-cert <path>                Path to certificate file'',
      ''  --wss-key <path>                 Path to key file'',
      ''  --wss-passphrase <passphrase>    Passphrase for certificate'',
      '''',
      ''Examples:'',
      ''  reactotron-core-server --port 9090'',
      ''  reactotron-core-server --port 9090 --wss-pfx ./server.pfx --wss-passphrase mypass'',
      ''  reactotron-core-server --port 9090 --wss-cert ./cert.pem --wss-key ./key.pem''])"

definition printHelp :: "process \<Rightarrow> process" where
  "printHelp p = console_log [Str helpText] p"

text \<open>The bodies of the seven handlers \<^verbatim>\<open>run\<close> registers, by the event each is for.\<close>

fun handler :: "number \<Rightarrow> WssServerOptions option \<Rightarrow> event \<Rightarrow> process \<Rightarrow> process" where
  "handler port' wss' EvStart p =
     (let p1 = console_log [Str (check_mark @ '' Reactotron server listening on port ''), Num port'] p
      in if wss' \<noteq> None then console_log [Str (check_mark @ '' TLS/WSS enabled'')] p1 else p1)"
| "handler port' wss' (EvPortUnavailable unavailablePort) p =
     process_exit 1
       (console_error [Str (cross_mark @ '' Port ''), Num unavailablePort, Str '' is already in use''] p)"
| "handler port' wss' EvConnect p =
     console_log [Str (right_arrow @ '' Client connecting...'')] p"
| "handler port' wss' (EvConnectionEstablished conn) p =
     console_log
       [Str (check_mark @ '' Connection established: ''
             @ (case conn_name conn of
                  None \<Rightarrow> ''Unknown''
                | Some n \<Rightarrow> if n = '''' then ''Unknown'' else n)
             @ '' ('' @ address conn @ '')'')] p"
| "handler port' wss' (EvDisconnect conn) p =
     console_log
       [Str (cross_mark @ '' Client disconnected: ''
             @ (case conn_name conn of
                  None \<Rightarrow> ''Unknown''
                | Some n \<Rightarrow> if n = '''' then ''Unknown'' else n))] p"
| "handler port' wss' (EvCommand cmd_type) p =
     (if cmd_type \<noteq> ''client.intro'' then console_log [Str (''  '' @ cmd_type)] p else p)"
| "handler port' wss' EvStop p =
     console_log [Str (check_mark @ '' Reactotron server stopped'')] p"

text \<open>
  The server emitting an event: the handler runs when one is registered under the
  event's name and the process is alive.
\<close>

definition emit :: "number \<Rightarrow> WssServerOptions option \<Rightarrow> event \<Rightarrow> process \<Rightarrow> process" where
  "emit port' wss' e p =
     (if exitCode p = None \<and> eventName e \<in> set (listeners p) then handler port' wss' e p else p)"

definition emitAll :: "number \<Rightarrow> WssServerOptions option \<Rightarrow> event list \<Rightarrow> process \<Rightarrow> process" where
  "emitAll port' wss' es p = foldl (\<lambda>q e. emit port' wss' e q) p es"

text \<open>
  The signal handler \<^verbatim>\<open>shutdown\<close>; \<^verbatim>\<open>stopEmits\<close> are the events the server emits
  inside \<^verbatim>\<open>server.stop()\<close>.
\<close>

definition shutdown :: "number \<Rightarrow> WssServerOptions option \<Rightarrow> event list \<Rightarrow> process \<Rightarrow> process" where
  "shutdown port' wss' stopEmits p =
     (let p1 = console_log [Str (LF # right_arrow @ '' Shutting down...'')] p;
          p2 = (if exitCode p1 = None then p1\<lparr>stopCalls := Suc (stopCalls p1)\<rparr> else p1);
          p3 = emitAll port' wss' stopEmits p2
      in process_exit 0 p3)"

text \<open>
  What the environment does: \<^verbatim>\<open>createServer\<close> may throw; \<^verbatim>\<open>server.start()\<close> emits
  events and may throw; afterwards events and signals arrive in some order.
\<close>

datatype input = Emit event | Signal signal "event list"

record env =
  createThrows :: "string option"
  startEmits :: "event list"
  startThrows :: "string option"
  inputs :: "input list"

text \<open>
  \<^verbatim>\<open>run()\<close> up to its return: the process state, and the error when the promise is
  rejected.
\<close>

definition run :: "(string \<Rightarrow> number) \<Rightarrow> string list \<Rightarrow> env \<Rightarrow> process \<times> string option" where
  "run parseInt argv ev =
     (case parseArgs parseInt argv of
        Inl (m, c) \<Rightarrow> (process_exit c (console_error m initialProcess), None)
      | Inr parsed \<Rightarrow>
          if help' parsed then (process_exit 0 (printHelp initialProcess), None)
          else
            (case createThrows ev of
               Some err \<Rightarrow> (initialProcess, Some err)
             | None \<Rightarrow>
                 let options = \<lparr>port = port parsed, wss = wss parsed\<rparr>;
                     p0 = initialProcess\<lparr>server := Some options\<rparr>;
                     p1 = foldl (\<lambda>q n. server_on n q) p0
                            [''start'', ''portUnavailable'', ''connect'', ''connectionEstablished'',
                             ''disconnect'', ''command'', ''stop''];
                     p2 = process_on SIGTERM (process_on SIGINT p1);
                     p3 = p2\<lparr>startCalls := Suc (startCalls p2)\<rparr>;
                     p4 = emitAll (port parsed) (wss parsed) (startEmits ev) p3
                 in (p4, if exitCode p4 = None then startThrows ev else None)))"

text \<open>
  Delivery of one later input by the event loop. A signal without a handler ends the
  process; its status is given as a shell reports it, 128 plus the signal's number.
\<close>

fun signalNumber :: "signal \<Rightarrow> int" where
  "signalNumber SIGINT = 2"
| "signalNumber SIGTERM = 15"

fun deliver :: "number \<Rightarrow> WssServerOptions option \<Rightarrow> input \<Rightarrow> process \<Rightarrow> process" where
  "deliver port' wss' (Emit e) p = emit port' wss' e p"
| "deliver port' wss' (Signal s stopEmits) p =
     (if exitCode p = None then
        (if s \<in> set (signalHandlers p) then shutdown port' wss' stopEmits p
         else p\<lparr>exitCode := Some (128 + signalNumber s)\<rparr>)
      else p)"

text \<open>
  The program run directly (the guarded call at the end of the file):
  \<^verbatim>\<open>run().catch(...)\<close>, then the event loop over the later inputs. The result is the
  state when the process has exited or the inputs are used up.
\<close>

definition main :: "(string \<Rightarrow> number) \<Rightarrow> string list \<Rightarrow> env \<Rightarrow> process" where
  "main parseInt argv ev =
     (case run parseInt argv ev of
        (p, Some err) \<Rightarrow>
          process_exit 1 (console_error [Str ''Error starting server:'', Str err] p)
      | (p, None) \<Rightarrow>
          (case server p of
             None \<Rightarrow> p
           | Some options \<Rightarrow> foldl (\<lambda>q i. deliver (port options) (wss options) i q) p (inputs ev)))"

section \<open>Notions of the specification\<close>



text \<open>The names a command declares arguments for.\<close>

definition declaredNames :: "'i CustomCommand \<Rightarrow> string set" where
  "declaredNames cc = (case args cc of None \<Rightarrow> {} | Some as \<Rightarrow> name ` set as)"

text \<open>
  The command line read as options: an option that takes a value is paired with the
  token after it, which is then not an option itself.
\<close>

definition takesValue :: "string \<Rightarrow> bool" where
  "takesValue a =
     (a \<in> {''--port'', ''-p'', ''--wss-pfx'', ''--wss-cert'', ''--wss-key'', ''--wss-passphrase''})"

fun options :: "string list \<Rightarrow> (string \<times> string option) list" where
  "options [] = []"
| "options [a] = [(a, None)]"
| "options (a # v # rest) =
     (if takesValue a then (a, Some v) # options rest else (a, None) # options (v # rest))"

text \<open>The options given, and the value of the last occurrence of one of \<open>names\<close>.\<close>

definition given :: "string list \<Rightarrow> string set" where
  "given argv = fst ` set (options argv)"

fun lastValue :: "string list \<Rightarrow> (string \<times> string option) list \<Rightarrow> string option" where
  "lastValue names [] = None"
| "lastValue names ((a, v) # opts) =
     (case lastValue names opts of
        Some x \<Rightarrow> Some x
      | None \<Rightarrow> if a \<in> set names then v else None)"

definition wssNames :: "string set" where
  "wssNames = {''--wss-pfx'', ''--wss-cert'', ''--wss-key'', ''--wss-passphrase''}"

text \<open>The three shapes of a TLS configuration that the specification lists.\<close>

definition plainShape :: "WssServerOptions option \<Rightarrow> bool" where
  "plainShape tls = (tls = None)"

definition pfxShape :: "WssServerOptions option \<Rightarrow> bool" where
  "pfxShape tls =
     (\<exists>w. tls = Some w \<and> pathToPfx w \<noteq> None \<and> pathToCert w = None \<and> pathToKey w = None)"

definition certKeyShape :: "WssServerOptions option \<Rightarrow> bool" where
  "certKeyShape tls =
     (\<exists>w. tls = Some w \<and> pathToCert w \<noteq> None \<and> pathToKey w \<noteq> None
          \<and> pathToPfx w = None \<and> passphrase w = None)"

text \<open>The lifecycle events of the specification and the names the implementation uses.\<close>

datatype lifecycle =
  Listening | PortUnavailable | Connecting | ConnectionEstablished | Disconnected
  | CommandMessage | Stopped

fun implName :: "lifecycle \<Rightarrow> string" where
  "implName Listening = ''start''"
| "implName PortUnavailable = ''portUnavailable''"
| "implName Connecting = ''connect''"
| "implName ConnectionEstablished = ''connectionEstablished''"
| "implName Disconnected = ''disconnect''"
| "implName CommandMessage = ''command''"
| "implName Stopped = ''stop''"




text \<open>
  A process that is listening to the server: a handler is registered for every event
  name, and for both signals.
\<close>

definition ready :: "process \<Rightarrow> bool" where
  "ready p =
     (set [''start'', ''portUnavailable'', ''connect'', ''connectionEstablished'',
           ''disconnect'', ''command'', ''stop''] \<subseteq> set (listeners p)
      \<and> set [SIGINT, SIGTERM] \<subseteq> set (signalHandlers p))"

text \<open>An exit with code 1 comes with a line on the error stream; no other code but 0 occurs.\<close>

definition exitOk :: "process \<Rightarrow> bool" where
  "exitOk p =
     (exitCode p = None \<or> exitCode p = Some 0 \<or> (exitCode p = Some 1 \<and> stderr p \<noteq> []))"

text \<open>
  The state in which \<^verbatim>\<open>run\<close> calls \<^verbatim>\<open>server.start()\<close> for the parsed arguments
  \<open>parsed\<close>: the server created with their port and TLS options, the seven handlers and
  the two signal handlers registered.
\<close>

definition starting :: "ParsedArgs \<Rightarrow> process" where
  "starting parsed =
     \<lparr>stdout = [], stderr = [], exitCode = None,
      server = Some \<lparr>port = port parsed, wss = wss parsed\<rparr>,
      listeners = [''start'', ''portUnavailable'', ''connect'', ''connectionEstablished'',
                   ''disconnect'', ''command'', ''stop''],
      signalHandlers = [SIGINT, SIGTERM], startCalls = 1, stopCalls = 0\<rparr>"


section \<open>The reducer\<close>

lemma produce_set_result:
  assumes "state < length h" and "n \<noteq> ''__proto__''"
  shows "\<exists>h' state'. produce h state (\<lambda>d. draft_set d n v) = (h', state')
           \<and> state' < length h' \<and> h' ! state' = (h ! state)(n \<mapsto> v)
           \<and> take (length h) h' = h"
proof (cases "(h ! state) n = Some v")
  case True
  then have "(h ! state)(n \<mapsto> v) = h ! state"
    by (simp add: map_upd_triv)
  with True assms show ?thesis
    by (simp add: produce_def draft_set_def createDraft_def)
next
  case False
  with assms(2) show ?thesis
    by (simp add: produce_def draft_set_def createDraft_def assign_def)
qed

lemma produce_set_proto:
  "produce h state (\<lambda>d. draft_set d ''__proto__'' v) = (h, state)"
  by (simp add: produce_def draft_set_def createDraft_def)

text \<open>
  Under every name but \<^verbatim>\<open>__proto__\<close> an \<^verbatim>\<open>UPDATE_ARG\<close> action for \<open>(n, v)\<close> returns a
  state object in which \<open>n\<close> maps to \<open>v\<close> and every other name maps to what it mapped to
  before; the object given as input, like every object that existed before, is as it was.
\<close>

lemma update_arg_other_names:
  assumes "state < length h" and "n \<noteq> ''__proto__''"
  shows "\<exists>h' state'.
           customCommandItemReducer h state
             \<lparr>type = ''UPDATE_ARG'', payload = Some \<lparr>argName = n, newValue = v\<rparr>\<rparr> = Inr (h', state')
           \<and> state' < length h'
           \<and> (h' ! state') n = Some v
           \<and> (\<forall>m. m \<noteq> n \<longrightarrow> (h' ! state') m = (h ! state) m)
           \<and> h' ! state = h ! state
           \<and> (\<forall>r < length h. h' ! r = h ! r)"
proof -
  obtain h' state' where r: "produce h state (\<lambda>d. draft_set d n v) = (h', state')"
    and s: "state' < length h'" and o: "h' ! state' = (h ! state)(n \<mapsto> v)"
    and t: "take (length h) h' = h"
    using produce_set_result [OF assms] by blast
  have old: "h' ! r = h ! r" if "r < length h" for r
  proof -
    have "take (length h) h' ! r = h' ! r" using that by simp
    with t show ?thesis by simp
  qed
  have "customCommandItemReducer h state
          \<lparr>type = ''UPDATE_ARG'', payload = Some \<lparr>argName = n, newValue = v\<rparr>\<rparr> = Inr (h', state')"
    using r by (simp add: customCommandItemReducer_def)
  with s o old assms(1) show ?thesis by simp
qed

text \<open>
  C4 (at the failing input). The specification has the reducer map \<open>n\<close> to \<open>v\<close> for
  every argument name \<open>n\<close>. Under the name \<^verbatim>\<open>__proto__\<close> the reducer returns the state it
  was given, and in it the name maps to nothing, not to the value of the action.
\<close>

theorem update_arg_proto_not_bound:
  "customCommandItemReducer [[''user'' \<mapsto> '''', ''role'' \<mapsto> '''']] 0
     \<lparr>type = ''UPDATE_ARG'', payload = Some \<lparr>argName = ''__proto__'', newValue = ''x''\<rparr>\<rparr>
     = Inr ([[''user'' \<mapsto> '''', ''role'' \<mapsto> '''']], 0)
   \<and> ([[''user'' \<mapsto> '''', ''role'' \<mapsto> '''']] ! 0) ''__proto__'' = None"
  by (simp add: customCommandItemReducer_def produce_set_proto)

text \<open>
  C10. For an action whose type is not \<^verbatim>\<open>UPDATE_ARG\<close> the reducer returns the very
  state it was given, and no object is created or changed.
\<close>

theorem reducer_identity_outside_update_arg:
  assumes "type action \<noteq> ''UPDATE_ARG''"
  shows "customCommandItemReducer h state action = Inr (h, state)"
  using assms by (simp add: customCommandItemReducer_def)

theorem reducer_identity_outside_update_arg_witness:
  "type \<lparr>type = ''RESET'', payload = None\<rparr> \<noteq> ''UPDATE_ARG''
   \<and> customCommandItemReducer [[''user'' \<mapsto> ''ann'']] 0 \<lparr>type = ''RESET'', payload = None\<rparr>
       = Inr ([[''user'' \<mapsto> ''ann'']], 0)"
proof -
  have neq: "type \<lparr>type = ''RESET'', payload = None\<rparr> \<noteq> ''UPDATE_ARG''" by simp
  from reducer_identity_outside_update_arg [OF neq] neq show ?thesis by blast
qed

section \<open>The arguments sent with a command\<close>

lemma initArgMap_foldl:
  "foldl (\<lambda>argMap arg. assign argMap (name arg) '''') m as
     = (\<lambda>n. if n \<in> name ` set as \<and> n \<noteq> ''__proto__'' then Some '''' else m n)"
  by (induction as arbitrary: m) (auto simp: fun_eq_iff assign_def)

lemma initArgMap_eq:
  "initArgMap (args cc)
     = (\<lambda>n. if n \<in> declaredNames cc \<and> n \<noteq> ''__proto__'' then Some '''' else None)"
  by (cases "args cc") (simp_all add: initArgMap_def declaredNames_def initArgMap_foldl)

lemma reducer_onChange:
  assumes "state < length h"
  shows "\<exists>h' state'. customCommandItemReducer h state (onChange a v) = Inr (h', state')
           \<and> state' < length h' \<and> h' ! state' = assign (h ! state) (name a) v
           \<and> take (length h) h' = h"
proof (cases "name a = ''__proto__''")
  case True
  with assms show ?thesis
    by (simp add: customCommandItemReducer_def onChange_def produce_set_proto assign_def)
next
  case False
  with produce_set_result [OF assms False, of v] show ?thesis
    by (simp add: customCommandItemReducer_def onChange_def assign_def)
qed

lemma dispatchAll_edits:
  assumes "state < length h"
  shows "\<exists>h1 s1. dispatchAll h state (map (\<lambda>(a, v). onChange a v) edits) = Inr (h1, s1)
           \<and> s1 < length h1
           \<and> (\<forall>n. n \<notin> (name \<circ> fst) ` set edits \<longrightarrow> (h1 ! s1) n = (h ! state) n)"
  using assms
proof (induction edits arbitrary: h state)
  case Nil
  then show ?case by simp
next
  case (Cons e edits)
  obtain a v where e: "e = (a, v)" by (cases e)
  from reducer_onChange [OF Cons.prems, of a v]
  obtain h' state' where r: "customCommandItemReducer h state (onChange a v) = Inr (h', state')"
    and s: "state' < length h'" and o: "h' ! state' = assign (h ! state) (name a) v"
    by blast
  from Cons.IH [OF s]
  obtain h1 s1 where d: "dispatchAll h' state' (map (\<lambda>(a, v). onChange a v) edits) = Inr (h1, s1)"
    and s1: "s1 < length h1"
    and k: "\<forall>n. n \<notin> (name \<circ> fst) ` set edits \<longrightarrow> (h1 ! s1) n = (h' ! state') n"
    by blast
  have "dispatchAll h state (map (\<lambda>(a, v). onChange a v) (e # edits)) = Inr (h1, s1)"
    using r d e by simp
  moreover have "\<forall>n. n \<notin> (name \<circ> fst) ` set (e # edits) \<longrightarrow> (h1 ! s1) n = (h ! state) n"
    using k o e by (auto simp: assign_def)
  ultimately show ?case using s1 by blast
qed

text \<open>
  The state a command item starts from binds the declared argument names other than
  \<^verbatim>\<open>__proto__\<close>, each to the empty string, and no other name. Whatever the operator then
  types, the map handed to \<^verbatim>\<open>sendCustomCommand\<close> still holds the empty string for every
  such name that was not filled in.
\<close>

lemma unfilled_arguments_other_names:
  fixes cc :: "'i CustomCommand"
  shows "initArgMap (args cc)
           = (\<lambda>n. if n \<in> declaredNames cc \<and> n \<noteq> ''__proto__'' then Some '''' else None)
    \<and> (\<exists>h1 s1.
          dispatchAll (fst (mountItem h cc)) (snd (mountItem h cc))
            (map (\<lambda>(a, v). onChange a v) edits) = Inr (h1, s1)
          \<and> fst (onClick cc h1 s1) = command cc
          \<and> (\<forall>n. n \<notin> (name \<circ> fst) ` set edits \<longrightarrow>
                snd (onClick cc h1 s1) n
                  = (if n \<in> declaredNames cc \<and> n \<noteq> ''__proto__'' then Some '''' else None)))"
proof -
  have m: "snd (mountItem h cc) < length (fst (mountItem h cc))"
    and i: "fst (mountItem h cc) ! snd (mountItem h cc) = initArgMap (args cc)"
    by (simp_all add: mountItem_def)
  from dispatchAll_edits [OF m, of edits] i initArgMap_eq [of cc]
  show ?thesis by (auto simp: onClick_def)
qed

text \<open>
  C5 (at the failing input). The specification has every declared argument that is not
  filled in sent with the empty string. For a command that declares the arguments
  \<^verbatim>\<open>user\<close> and \<^verbatim>\<open>__proto__\<close>, the initial map binds \<^verbatim>\<open>user\<close> to the empty string and
  \<^verbatim>\<open>__proto__\<close> to nothing, and a send without any input hands over a map without
  \<^verbatim>\<open>__proto__\<close>.
\<close>

theorem declared_proto_not_sent:
  "initArgMap (Some [\<lparr>name = ''user'', type_hint = None\<rparr>, \<lparr>name = ''__proto__'', type_hint = None\<rparr>])
     ''user'' = Some ''''
   \<and> initArgMap (Some [\<lparr>name = ''user'', type_hint = None\<rparr>, \<lparr>name = ''__proto__'', type_hint = None\<rparr>])
     ''__proto__'' = None
   \<and> snd (onClick
        \<lparr>clientId = ''c1'', id' = 1::nat, command = ''login'', title = None, description = None,
         args = Some [\<lparr>name = ''user'', type_hint = None\<rparr>, \<lparr>name = ''__proto__'', type_hint = None\<rparr>]\<rparr>
        (fst (mountItem []
          \<lparr>clientId = ''c1'', id' = 1::nat, command = ''login'', title = None, description = None,
           args = Some [\<lparr>name = ''user'', type_hint = None\<rparr>, \<lparr>name = ''__proto__'', type_hint = None\<rparr>]\<rparr>))
        (snd (mountItem []
          \<lparr>clientId = ''c1'', id' = 1::nat, command = ''login'', title = None, description = None,
           args = Some [\<lparr>name = ''user'', type_hint = None\<rparr>, \<lparr>name = ''__proto__'', type_hint = None\<rparr>]\<rparr>)))
       ''__proto__'' = None"
  by (simp add: initArgMap_def assign_def onClick_def mountItem_def)

section \<open>Searching the commands\<close>







section \<open>The keys of the rendered commands\<close>

lemma digitChar_inj: "d < 10 \<Longrightarrow> e < 10 \<Longrightarrow> digitChar d = digitChar e \<Longrightarrow> d = e"
proof -
  assume d: "d < 10" and e: "e < 10" and eq: "digitChar d = digitChar e"
  define ds where "ds = ''0123456789''"
  have "distinct ds" and l: "length ds = 10" by (simp_all add: ds_def)
  moreover have "ds ! d = ds ! e" using eq by (simp add: digitChar_def ds_def)
  ultimately show "d = e"
    using d e by (simp add: nth_eq_iff_index_eq)
qed

lemma digitChar_not_dash: "d < 10 \<Longrightarrow> digitChar d \<noteq> CHR ''-''"
proof -
  assume d: "d < 10"
  define ds where "ds = ''0123456789''"
  have l: "length ds = 10" and n: "CHR ''-'' \<notin> set ds" by (simp_all add: ds_def)
  from d l have "ds ! d \<in> set ds" by simp
  with n have "ds ! d \<noteq> CHR ''-''" by auto
  then show ?thesis by (simp add: digitChar_def ds_def)
qed

lemma natToString_nonempty: "natToString n \<noteq> []"
  by (subst natToString.simps) simp

lemma natToString_no_dash: "CHR ''-'' \<notin> set (natToString n)"
proof (induction n rule: natToString.induct)
  case (1 n)
  show ?case
  proof (cases "n < 10")
    case True
    then show ?thesis
      using digitChar_not_dash [of n] by (subst natToString.simps) auto
  next
    case False
    then show ?thesis
      using "1.IH" digitChar_not_dash [of "n mod 10"]
      by (subst natToString.simps) auto
  qed
qed

lemma natToString_eq: "natToString n = natToString m \<Longrightarrow> n = m"
proof (induction n arbitrary: m rule: natToString.induct)
  case (1 n)
  show ?case
  proof (cases "n < 10")
    case n: True
    show ?thesis
    proof (cases "m < 10")
      case True
      with n "1.prems" show ?thesis
        using digitChar_inj [of n m] by (simp add: natToString.simps [of n] natToString.simps [of m])
    next
      case False
      with n "1.prems" have "[digitChar n] = natToString (m div 10) @ [digitChar (m mod 10)]"
        by (simp add: natToString.simps [of n] natToString.simps [of m])
      then have "natToString (m div 10) = []" by simp
      with natToString_nonempty show ?thesis by blast
    qed
  next
    case n: False
    show ?thesis
    proof (cases "m < 10")
      case True
      with n "1.prems" have "natToString (n div 10) @ [digitChar (n mod 10)] = [digitChar m]"
        by (simp add: natToString.simps [of n] natToString.simps [of m])
      then have "natToString (n div 10) = []" by simp
      with natToString_nonempty show ?thesis by blast
    next
      case False
      with n "1.prems" have
        "natToString (n div 10) @ [digitChar (n mod 10)] = natToString (m div 10) @ [digitChar (m mod 10)]"
        by (simp add: natToString.simps [of n] natToString.simps [of m])
      then have a: "natToString (n div 10) = natToString (m div 10)"
        and b: "digitChar (n mod 10) = digitChar (m mod 10)" by simp_all
      from "1.IH" [OF n a] have q: "n div 10 = m div 10" .
      from b have r: "n mod 10 = m mod 10"
        using digitChar_inj [of "n mod 10" "m mod 10"] by simp
      have "n = 10 * (n div 10) + n mod 10" by simp
      also have "\<dots> = 10 * (m div 10) + m mod 10" by (simp only: q r)
      also have "\<dots> = m" by simp
      finally show ?thesis .
    qed
  qed
qed

lemma natToString_inj: "inj natToString"
  by (rule injI) (rule natToString_eq)

lemma split_at_last_dash:
  assumes "c1 @ ''-'' @ t1 = c2 @ ''-'' @ t2"
    and "CHR ''-'' \<notin> set t1" and "CHR ''-'' \<notin> set t2"
  shows "c1 = c2 \<and> t1 = t2"
proof -
  let ?f = "\<lambda>s. takeWhile (\<lambda>c. c \<noteq> CHR ''-'') (rev s)"
  have r: "?f (c @ ''-'' @ t) = rev t" if "CHR ''-'' \<notin> set t" for c t
  proof -
    have "rev (c @ ''-'' @ t) = rev t @ CHR ''-'' # rev c" by simp
    moreover have "takeWhile (\<lambda>c. c \<noteq> CHR ''-'') (rev t @ CHR ''-'' # rev c)
                     = rev t @ takeWhile (\<lambda>c. c \<noteq> CHR ''-'') (CHR ''-'' # rev c)"
      by (rule takeWhile_append2) (use that in auto)
    ultimately show ?thesis by simp
  qed
  from assms(1) have "?f (c1 @ ''-'' @ t1) = ?f (c2 @ ''-'' @ t2)" by simp
  with r [OF assms(2)] r [OF assms(3)] have "rev t1 = rev t2" by simp
  then have t: "t1 = t2" by simp
  with assms(1) have "c1 = c2" by simp
  with t show ?thesis by simp
qed

lemma itemKey_eq_iff:
  assumes "inj toString" and "\<And>i. CHR ''-'' \<notin> set (toString i)"
  shows "itemKey toString a = itemKey toString b
           \<longleftrightarrow> clientId a = clientId b \<and> id' a = id' b"
proof
  assume "itemKey toString a = itemKey toString b"
  then have "clientId a @ ''-'' @ toString (id' a) = clientId b @ ''-'' @ toString (id' b)"
    by (simp add: itemKey_def)
  from split_at_last_dash [OF this assms(2) assms(2)]
  have "clientId a = clientId b" and "toString (id' a) = toString (id' b)" by simp_all
  with assms(1) show "clientId a = clientId b \<and> id' a = id' b"
    by (simp add: inj_eq)
next
  assume "clientId a = clientId b \<and> id' a = id' b"
  then show "itemKey toString a = itemKey toString b" by (simp add: itemKey_def)
qed

lemma filtered_is_filter:
  "\<exists>P. filteredCustomCommands toLowerCase search ccs = filter P ccs"
proof (cases "search = ''''")
  case True
  then have "filteredCustomCommands toLowerCase search ccs = filter (\<lambda>_. True) ccs"
    by (simp add: filteredCustomCommands_def)
  then show ?thesis by blast
next
  case False
  then show ?thesis by (simp add: filteredCustomCommands_def Let_def) blast
qed

text \<open>
  The key of a rendered command is its \<open>clientId\<close>, a dash and the text of its \<open>id\<close>.
  Provided the text of an id determines the id and contains no dash (as the decimal text
  of a natural number does), two displayed commands have the same key exactly when they
  have the same pair \<open>(clientId, id)\<close>, and a list with pairwise different pairs is
  rendered with pairwise different keys.
\<close>

lemma render_keys_distinguish:
  fixes toString :: "'i \<Rightarrow> string" and customCommands :: "'i CustomCommand list"
  assumes "inj toString" and "\<And>i. CHR ''-'' \<notin> set (toString i)"
    and "renderCommands toString toLowerCase search customCommands = Items items"
  shows "map snd items = filteredCustomCommands toLowerCase search customCommands
       \<and> (\<forall>(k, c) \<in> set items. k = clientId c @ ''-'' @ toString (id' c))
       \<and> (\<forall>(k1, c1) \<in> set items. \<forall>(k2, c2) \<in> set items.
            (k1 = k2) = (clientId c1 = clientId c2 \<and> id' c1 = id' c2))
       \<and> (distinct (map (\<lambda>c. (clientId c, id' c)) customCommands) \<longrightarrow> distinct (map fst items))"
proof -
  let ?f = "filteredCustomCommands toLowerCase search customCommands"
  from assms(3) have items: "items = map (\<lambda>cc. (itemKey toString cc, cc)) ?f"
    by (simp add: renderCommands_def split: if_splits)
  have a: "map snd items = ?f"
    by (simp add: items comp_def)
  have b: "\<forall>(k, c) \<in> set items. k = clientId c @ ''-'' @ toString (id' c)"
    by (auto simp: items itemKey_def)
  have c: "\<forall>(k1, c1) \<in> set items. \<forall>(k2, c2) \<in> set items.
            (k1 = k2) = (clientId c1 = clientId c2 \<and> id' c1 = id' c2)"
    using itemKey_eq_iff [OF assms(1) assms(2)] by (auto simp: items)
  have d: "distinct (map fst items)"
    if "distinct (map (\<lambda>c. (clientId c, id' c)) customCommands)"
  proof -
    obtain P where P: "?f = filter P customCommands"
      using filtered_is_filter by blast
    from that have "distinct (map (\<lambda>c. (clientId c, id' c)) ?f)"
      unfolding P by (rule distinct_map_filter)
    then have df: "distinct ?f"
      and io: "inj_on (\<lambda>c. (clientId c, id' c)) (set ?f)"
      by (simp_all add: distinct_map)
    have "inj_on (itemKey toString) (set ?f)"
    proof (rule inj_onI)
      fix x y assume "x \<in> set ?f" "y \<in> set ?f" "itemKey toString x = itemKey toString y"
      then have "(clientId x, id' x) = (clientId y, id' y)"
        using itemKey_eq_iff [OF assms(1) assms(2), of x y] by simp
      with io \<open>x \<in> set ?f\<close> \<open>y \<in> set ?f\<close> show "x = y"
        by (auto dest: inj_onD)
    qed
    with df have "distinct (map (itemKey toString) ?f)"
      by (simp add: distinct_map)
    then show ?thesis by (simp add: items comp_def)
  qed
  from a b c d show ?thesis by blast
qed

text \<open>
  C6 (at the failing input). The specification has any two displayed commands with
  different pairs \<open>(clientId, id)\<close> rendered under different keys. With integer ids in
  JavaScript's decimal text, the commands of the clients \<^verbatim>\<open>a-\<close> and \<^verbatim>\<open>a\<close> with the ids
  \<open>1\<close> and \<open>-1\<close>, which share the command name, are two entries with different pairs and
  are both rendered under the key \<^verbatim>\<open>a--1\<close>.
\<close>

theorem render_keys_collide:
  "renderCommands intToString asciiLower ''''
       [\<lparr>clientId = ''a-'', id' = 1::int, command = ''reset'', title = None,
         description = None, args = None\<rparr>,
        \<lparr>clientId = ''a'', id' = - 1, command = ''reset'', title = None,
         description = None, args = None\<rparr>]
     = Items
       [(''a--1'', \<lparr>clientId = ''a-'', id' = 1, command = ''reset'', title = None,
         description = None, args = None\<rparr>),
        (''a--1'', \<lparr>clientId = ''a'', id' = - 1, command = ''reset'', title = None,
         description = None, args = None\<rparr>)]
   \<and> (''a-'', 1::int) \<noteq> (''a'', - 1)"
  by code_simp

section \<open>The process: what the handlers change\<close>

lemma console_log_fields [simp]:
  "exitCode (console_log m p) = exitCode p"
  "stderr (console_log m p) = stderr p"
  "server (console_log m p) = server p"
  "listeners (console_log m p) = listeners p"
  "signalHandlers (console_log m p) = signalHandlers p"
  "startCalls (console_log m p) = startCalls p"
  "stopCalls (console_log m p) = stopCalls p"
  by (simp_all add: console_log_def)

lemma console_error_fields [simp]:
  "exitCode (console_error m p) = exitCode p"
  "stdout (console_error m p) = stdout p"
  "server (console_error m p) = server p"
  "listeners (console_error m p) = listeners p"
  "signalHandlers (console_error m p) = signalHandlers p"
  "startCalls (console_error m p) = startCalls p"
  "stopCalls (console_error m p) = stopCalls p"
  by (simp_all add: console_error_def)

lemma process_exit_fields [simp]:
  "stdout (process_exit c p) = stdout p"
  "stderr (process_exit c p) = stderr p"
  "server (process_exit c p) = server p"
  "listeners (process_exit c p) = listeners p"
  "signalHandlers (process_exit c p) = signalHandlers p"
  "startCalls (process_exit c p) = startCalls p"
  "stopCalls (process_exit c p) = stopCalls p"
  by (simp_all add: process_exit_def)

lemma process_exit_code [simp]:
  "exitCode (process_exit c p) = (case exitCode p of None \<Rightarrow> Some c | Some d \<Rightarrow> Some d)"
  by (simp add: process_exit_def split: option.splits)

lemma console_error_alive [simp]:
  "exitCode p = None \<Longrightarrow> stderr (console_error m p) = stderr p @ [m]"
  by (simp add: console_error_def)

lemma console_log_alive [simp]:
  "exitCode p = None \<Longrightarrow> stdout (console_log m p) = stdout p @ [m]"
  by (simp add: console_log_def)

lemma handler_frame [simp]:
  "server (handler port' wss' e p) = server p"
  "listeners (handler port' wss' e p) = listeners p"
  "signalHandlers (handler port' wss' e p) = signalHandlers p"
  "startCalls (handler port' wss' e p) = startCalls p"
  "stopCalls (handler port' wss' e p) = stopCalls p"
  by (cases e; simp add: Let_def)+


lemma handler_stderr:
  "exitCode p = None \<Longrightarrow>
     stderr (handler port' wss' e p) =
       (case e of
          EvPortUnavailable q \<Rightarrow>
            stderr p @ [[Str (cross_mark @ '' Port ''), Num q, Str '' is already in use'']]
        | _ \<Rightarrow> stderr p)"
  by (cases e) (simp_all add: Let_def)



lemma emit_dead: "exitCode p \<noteq> None \<Longrightarrow> emit port' wss' e p = p"
  by (auto simp: emit_def)

lemma emit_frame [simp]:
  "server (emit port' wss' e p) = server p"
  "listeners (emit port' wss' e p) = listeners p"
  "signalHandlers (emit port' wss' e p) = signalHandlers p"
  "startCalls (emit port' wss' e p) = startCalls p"
  "stopCalls (emit port' wss' e p) = stopCalls p"
  by (simp_all add: emit_def)

lemma ready_emit [simp]: "ready (emit port' wss' e p) = ready p"
  by (simp add: ready_def)

lemma emitAll_Nil [simp]: "emitAll port' wss' [] p = p"
  by (simp add: emitAll_def)

lemma emitAll_Cons [simp]:
  "emitAll port' wss' (e # es) p = emitAll port' wss' es (emit port' wss' e p)"
  by (simp add: emitAll_def)


lemma emitAll_frame [simp]:
  "server (emitAll port' wss' es p) = server p"
  "listeners (emitAll port' wss' es p) = listeners p"
  "signalHandlers (emitAll port' wss' es p) = signalHandlers p"
  "startCalls (emitAll port' wss' es p) = startCalls p"
  "stopCalls (emitAll port' wss' es p) = stopCalls p"
  by (induction es arbitrary: p; simp)+

lemma ready_emitAll [simp]: "ready (emitAll port' wss' es p) = ready p"
  by (simp add: ready_def)







lemma shutdown_frame [simp]:
  "server (shutdown port' wss' stopEmits p) = server p"
  "listeners (shutdown port' wss' stopEmits p) = listeners p"
  "signalHandlers (shutdown port' wss' stopEmits p) = signalHandlers p"
  "startCalls (shutdown port' wss' stopEmits p) = startCalls p"
  by (simp_all add: shutdown_def Let_def)

lemma deliver_dead: "exitCode p \<noteq> None \<Longrightarrow> deliver port' wss' i p = p"
  by (cases i) (auto simp: emit_dead)

lemma deliver_all_dead:
  "exitCode p \<noteq> None \<Longrightarrow> foldl (\<lambda>q i. deliver port' wss' i q) p is = p"
  by (induction "is") (simp_all add: deliver_dead)

lemma deliver_frame [simp]:
  "server (deliver port' wss' i p) = server p"
  "listeners (deliver port' wss' i p) = listeners p"
  "signalHandlers (deliver port' wss' i p) = signalHandlers p"
  "startCalls (deliver port' wss' i p) = startCalls p"
  by (cases i; simp)+

lemma deliver_all_frame [simp]:
  "server (foldl (\<lambda>q i. deliver port' wss' i q) p is) = server p"
  "listeners (foldl (\<lambda>q i. deliver port' wss' i q) p is) = listeners p"
  "signalHandlers (foldl (\<lambda>q i. deliver port' wss' i q) p is) = signalHandlers p"
  "startCalls (foldl (\<lambda>q i. deliver port' wss' i q) p is) = startCalls p"
  by (induction "is" arbitrary: p; simp)+

lemma ready_deliver [simp]: "ready (deliver port' wss' i p) = ready p"
  by (simp add: ready_def)




section \<open>The argument parser\<close>

lemma five_cases:
  "(A \<or> A') \<or> B \<or> C \<or> D \<or> E \<Longrightarrow> (A \<or> A' \<Longrightarrow> T) \<Longrightarrow> (B \<Longrightarrow> T) \<Longrightarrow> (C \<Longrightarrow> T)
     \<Longrightarrow> (D \<Longrightarrow> T) \<Longrightarrow> (E \<Longrightarrow> T) \<Longrightarrow> T"
  by blast

lemma takesValue_iff:
  "takesValue a \<longleftrightarrow>
     (a = ''--port'' \<or> a = ''-p'') \<or> a = ''--wss-pfx'' \<or> a = ''--wss-cert''
       \<or> a = ''--wss-key'' \<or> a = ''--wss-passphrase''"
  unfolding takesValue_def by (simp only: insert_iff empty_iff simp_thms disj_assoc)

lemma takesValue_cases:
  assumes "takesValue a"
  obtains "a = ''--port'' \<or> a = ''-p''" | "a = ''--wss-pfx''" | "a = ''--wss-cert''"
    | "a = ''--wss-key''" | "a = ''--wss-passphrase''"
proof -
  from assms have d:
    "(a = ''--port'' \<or> a = ''-p'') \<or> a = ''--wss-pfx'' \<or> a = ''--wss-cert''
       \<or> a = ''--wss-key'' \<or> a = ''--wss-passphrase''"
    by (simp only: takesValue_iff)
  show thesis
    by (rule five_cases [OF d]) (erule that)+
qed

lemma parseLoop_help:
  "a = ''--help'' \<or> a = ''-h'' \<Longrightarrow>
     parseLoop parseInt (a # rest) r w = parseLoop parseInt rest (r\<lparr>help' := True\<rparr>) w"
  by simp

lemma parseLoop_unknown:
  "\<not> takesValue a \<Longrightarrow> a \<noteq> ''--help'' \<Longrightarrow> a \<noteq> ''-h'' \<Longrightarrow>
     parseLoop parseInt (a # rest) r w = Inl ([Str (''Unknown argument: '' @ a)], 1)"
  by (simp add: takesValue_def)

lemma parseLoop_missing_value:
  "takesValue a \<Longrightarrow> \<exists>m. parseLoop parseInt [a] r w = Inl ([Str m], 1)"
  by (erule takesValue_cases) auto

lemma parseLoop_port:
  "a = ''--port'' \<or> a = ''-p'' \<Longrightarrow>
     parseLoop parseInt (a # v # rest) r w =
       (if isNaN (parseInt v) then Inl ([Str (''Invalid port: '' @ v)], 1)
        else parseLoop parseInt rest (r\<lparr>port := parseInt v\<rparr>) w)"
  by auto

lemma parseLoop_pfx:
  "parseLoop parseInt (''--wss-pfx'' # v # rest) r w
     = parseLoop parseInt rest r (w\<lparr>pathToPfx := Some v\<rparr>)"
  by simp

lemma parseLoop_cert:
  "parseLoop parseInt (''--wss-cert'' # v # rest) r w
     = parseLoop parseInt rest r (w\<lparr>pathToCert := Some v\<rparr>)"
  by simp

lemma parseLoop_key:
  "parseLoop parseInt (''--wss-key'' # v # rest) r w
     = parseLoop parseInt rest r (w\<lparr>pathToKey := Some v\<rparr>)"
  by simp

lemma parseLoop_passphrase:
  "parseLoop parseInt (''--wss-passphrase'' # v # rest) r w
     = parseLoop parseInt rest r (w\<lparr>passphrase := Some v\<rparr>)"
  by simp

declare parseLoop.simps(2) [simp del]

lemma given_Cons_value:
  "takesValue a \<Longrightarrow> given (a # v # rest) = insert a (given rest)"
  by (simp add: given_def)

lemma given_Cons_flag:
  "\<not> takesValue a \<Longrightarrow> given (a # rest) = insert a (given rest)"
  by (cases rest) (simp_all add: given_def)

lemma options_Cons_flag:
  "\<not> takesValue a \<Longrightarrow> options (a # rest) = (a, None) # options rest"
  by (cases rest) simp_all

lemma parseLoop_result:
  "parseLoop parseInt argv result wssOptions = Inr (result', wssOptions') \<Longrightarrow>
     help' result' = (help' result \<or> ''--help'' \<in> given argv \<or> ''-h'' \<in> given argv)
   \<and> port result' = (case lastValue [''--port'', ''-p''] (options argv) of
                        None \<Rightarrow> port result | Some v \<Rightarrow> parseInt v)
   \<and> wss result' = wss result
   \<and> pathToPfx wssOptions' = (case lastValue [''--wss-pfx''] (options argv) of
                        None \<Rightarrow> pathToPfx wssOptions | Some v \<Rightarrow> Some v)
   \<and> pathToCert wssOptions' = (case lastValue [''--wss-cert''] (options argv) of
                        None \<Rightarrow> pathToCert wssOptions | Some v \<Rightarrow> Some v)
   \<and> pathToKey wssOptions' = (case lastValue [''--wss-key''] (options argv) of
                        None \<Rightarrow> pathToKey wssOptions | Some v \<Rightarrow> Some v)
   \<and> passphrase wssOptions' = (case lastValue [''--wss-passphrase''] (options argv) of
                        None \<Rightarrow> passphrase wssOptions | Some v \<Rightarrow> Some v)"
proof (induction argv arbitrary: result wssOptions rule: options.induct)
  case 1
  then show ?case by (simp add: given_def)
next
  case (2 a)
  show ?case
  proof (cases "takesValue a")
    case True
    from parseLoop_missing_value [OF this, of parseInt result wssOptions] "2.prems"
    have False by auto
    then show ?thesis ..
  next
    case False
    show ?thesis
    proof (cases "a = ''--help'' \<or> a = ''-h''")
      case True
      with "2.prems" have "result' = result\<lparr>help' := True\<rparr>" and "wssOptions' = wssOptions"
        by (simp_all add: parseLoop_help)
      with True show ?thesis by (elim disjE) (simp_all add: given_def)
    next
      case False
      then have "parseLoop parseInt [a] result wssOptions
                   = Inl ([Str (''Unknown argument: '' @ a)], 1)"
        using \<open>\<not> takesValue a\<close> by (intro parseLoop_unknown) simp_all
      with "2.prems" show ?thesis by simp
    qed
  qed
next
  case (3 a v rest)
  show ?case
  proof (cases "takesValue a")
    case tv: True
    note g = given_Cons_value [OF tv]
    have o: "options (a # v # rest) = (a, Some v) # options rest"
      using tv by simp
    from tv show ?thesis
    proof (cases rule: takesValue_cases)
      case 1
      with "3.prems" have n: "\<not> isNaN (parseInt v)"
        and p: "parseLoop parseInt rest (result\<lparr>port := parseInt v\<rparr>) wssOptions = Inr (result', wssOptions')"
        by (simp_all add: parseLoop_port split: if_splits)
      from 1 "3.IH"(1) [OF tv p] show ?thesis
        unfolding g o by (elim disjE) (simp_all split: option.splits)
    next
      case 2
      with "3.prems" have
        p: "parseLoop parseInt rest result (wssOptions\<lparr>pathToPfx := Some v\<rparr>) = Inr (result', wssOptions')"
        by (simp add: parseLoop_pfx)
      from "3.IH"(1) [OF tv p] 2 show ?thesis
        unfolding g o by (simp split: option.splits)
    next
      case 3
      with "3.prems" have
        p: "parseLoop parseInt rest result (wssOptions\<lparr>pathToCert := Some v\<rparr>) = Inr (result', wssOptions')"
        by (simp add: parseLoop_cert)
      from "3.IH"(1) [OF tv p] 3 show ?thesis
        unfolding g o by (simp split: option.splits)
    next
      case 4
      with "3.prems" have
        p: "parseLoop parseInt rest result (wssOptions\<lparr>pathToKey := Some v\<rparr>) = Inr (result', wssOptions')"
        by (simp add: parseLoop_key)
      from "3.IH"(1) [OF tv p] 4 show ?thesis
        unfolding g o by (simp split: option.splits)
    next
      case 5
      with "3.prems" have
        p: "parseLoop parseInt rest result (wssOptions\<lparr>passphrase := Some v\<rparr>) = Inr (result', wssOptions')"
        by (simp add: parseLoop_passphrase)
      from "3.IH"(1) [OF tv p] 5 show ?thesis
        unfolding g o by (simp split: option.splits)
    qed
  next
    case tv: False
    note g = given_Cons_flag [OF tv, of "v # rest"]
    note o = options_Cons_flag [OF tv, of "v # rest"]
    show ?thesis
    proof (cases "a = ''--help'' \<or> a = ''-h''")
      case True
      with "3.prems" have
        p: "parseLoop parseInt (v # rest) (result\<lparr>help' := True\<rparr>) wssOptions = Inr (result', wssOptions')"
        by (simp only: parseLoop_help)
      from True "3.IH"(2) [OF tv p] show ?thesis
        unfolding g o by (elim disjE) (simp_all split: option.splits)
    next
      case False
      then have "parseLoop parseInt (a # v # rest) result wssOptions
                   = Inl ([Str (''Unknown argument: '' @ a)], 1)"
        using tv by (intro parseLoop_unknown) simp_all
      with "3.prems" show ?thesis by simp
    qed
  qed
qed



lemma run_rejected:
  "parseArgs parseInt argv = Inl (m, c) \<Longrightarrow>
     run parseInt argv ev = (initialProcess\<lparr>stderr := [m], exitCode := Some c\<rparr>, None)"
  by (simp add: run_def initialProcess_def console_error_def process_exit_def)

lemma run_help:
  "parseArgs parseInt argv = Inr parsed \<Longrightarrow> help' parsed \<Longrightarrow>
     run parseInt argv ev = (initialProcess\<lparr>stdout := [[Str helpText]], exitCode := Some 0\<rparr>, None)"
  by (simp add: run_def initialProcess_def printHelp_def console_log_def process_exit_def)

lemma run_create_throws:
  "parseArgs parseInt argv = Inr parsed \<Longrightarrow> \<not> help' parsed \<Longrightarrow> createThrows ev = Some err \<Longrightarrow>
     run parseInt argv ev = (initialProcess, Some err)"
  by (simp add: run_def)

lemma registration:
  "(process_on SIGTERM (process_on SIGINT
      (foldl (\<lambda>q n. server_on n q)
         (initialProcess\<lparr>server := Some \<lparr>port = port parsed, wss = wss parsed\<rparr>\<rparr>)
         [''start'', ''portUnavailable'', ''connect'', ''connectionEstablished'',
          ''disconnect'', ''command'', ''stop''])))
     \<lparr>startCalls := Suc (startCalls (process_on SIGTERM (process_on SIGINT
      (foldl (\<lambda>q n. server_on n q)
         (initialProcess\<lparr>server := Some \<lparr>port = port parsed, wss = wss parsed\<rparr>\<rparr>)
         [''start'', ''portUnavailable'', ''connect'', ''connectionEstablished'',
          ''disconnect'', ''command'', ''stop'']))))\<rparr>
   = starting parsed"
  by (simp add: initialProcess_def server_on_def process_on_def starting_def)

lemma run_starts:
  assumes "parseArgs parseInt argv = Inr parsed" and "\<not> help' parsed" and "createThrows ev = None"
  shows "run parseInt argv ev =
       (emitAll (port parsed) (wss parsed) (startEmits ev) (starting parsed),
        if exitCode (emitAll (port parsed) (wss parsed) (startEmits ev) (starting parsed)) = None
        then startThrows ev else None)"
  unfolding run_def Let_def registration using assms by simp

lemma starting_ready [simp]: "ready (starting parsed)" "exitCode (starting parsed) = None"
  "exitOk (starting parsed)"
  by (simp_all add: ready_def starting_def exitOk_def)

lemma given_subset: "given argv \<subseteq> set argv"
  by (induction argv rule: options.induct) (auto simp: given_def)

lemma lastValue_absent:
  "set names \<inter> fst ` set opts = {} \<Longrightarrow> lastValue names opts = None"
  by (induction opts) (auto split: option.splits)

lemma lastValue_present:
  "\<forall>(a, v) \<in> set opts. a \<in> set names \<longrightarrow> v \<noteq> None \<Longrightarrow>
     (lastValue names opts = None) = (set names \<inter> fst ` set opts = {})"
  by (induction opts) (auto split: option.splits)

lemma options_values:
  "parseLoop parseInt argv r w = Inr (r', w') \<Longrightarrow>
     \<forall>(a, v) \<in> set (options argv). takesValue a \<longrightarrow> v \<noteq> None"
proof (induction argv arbitrary: r w rule: options.induct)
  case 1
  then show ?case by simp
next
  case (2 a)
  show ?case
  proof (cases "takesValue a")
    case True
    from parseLoop_missing_value [OF this, of parseInt r w] "2.prems"
    have False by auto
    then show ?thesis ..
  next
    case False
    then show ?thesis by simp
  qed
next
  case (3 a v rest)
  show ?case
  proof (cases "takesValue a")
    case tv: True
    have "\<exists>r2 w2. parseLoop parseInt rest r2 w2 = Inr (r', w')"
      using tv
    proof (cases rule: takesValue_cases)
      case 1
      with "3.prems" show ?thesis
        by (auto simp: parseLoop_port split: if_splits)
    next
      case 2
      with "3.prems" show ?thesis by (auto simp: parseLoop_pfx)
    next
      case 3
      with "3.prems" show ?thesis by (auto simp: parseLoop_cert)
    next
      case 4
      with "3.prems" show ?thesis by (auto simp: parseLoop_key)
    next
      case 5
      with "3.prems" show ?thesis by (auto simp: parseLoop_passphrase)
    qed
    then obtain r2 w2 where "parseLoop parseInt rest r2 w2 = Inr (r', w')" by blast
    from "3.IH"(1) [OF tv this] tv show ?thesis by simp
  next
    case tv: False
    show ?thesis
    proof (cases "a = ''--help'' \<or> a = ''-h''")
      case True
      with "3.prems" have "parseLoop parseInt (v # rest) (r\<lparr>help' := True\<rparr>) w = Inr (r', w')"
        by (simp only: parseLoop_help)
      from "3.IH"(2) [OF tv this] tv show ?thesis
        by (simp add: options_Cons_flag)
    next
      case False
      then have "parseLoop parseInt (a # v # rest) r w = Inl ([Str (''Unknown argument: '' @ a)], 1)"
        using tv by (intro parseLoop_unknown) simp_all
      with "3.prems" show ?thesis by simp
    qed
  qed
qed

section \<open>The entry point\<close>

lemma parseArgs_accepts:
  assumes "parseArgs parseInt argv = Inr r"
  obtains r0 w where
    "parseLoop parseInt argv \<lparr>port = Finite 9090, wss = None, help' = False\<rparr>
       \<lparr>pathToPfx = None, pathToCert = None, pathToKey = None, passphrase = None\<rparr> = Inr (r0, w)"
    and "r = (if keysLength w > 0 then r0\<lparr>wss := Some w\<rparr> else r0)"
  using assms unfolding parseArgs_def by (auto split: sum.splits)

lemma parseArgs_summary:
  assumes "parseArgs parseInt argv = Inr r"
  shows "help' r = (''--help'' \<in> given argv \<or> ''-h'' \<in> given argv)"
    and "port r = (case lastValue [''--port'', ''-p''] (options argv) of
                     None \<Rightarrow> Finite 9090 | Some v \<Rightarrow> parseInt v)"
    and "wss r =
           (if keysLength
                 \<lparr>pathToPfx = lastValue [''--wss-pfx''] (options argv),
                  pathToCert = lastValue [''--wss-cert''] (options argv),
                  pathToKey = lastValue [''--wss-key''] (options argv),
                  passphrase = lastValue [''--wss-passphrase''] (options argv)\<rparr> > 0
            then Some \<lparr>pathToPfx = lastValue [''--wss-pfx''] (options argv),
                  pathToCert = lastValue [''--wss-cert''] (options argv),
                  pathToKey = lastValue [''--wss-key''] (options argv),
                  passphrase = lastValue [''--wss-passphrase''] (options argv)\<rparr>
            else None)"
    and "\<forall>(a, v) \<in> set (options argv). takesValue a \<longrightarrow> v \<noteq> None"
proof -
  from assms obtain r0 w where
    l: "parseLoop parseInt argv \<lparr>port = Finite 9090, wss = None, help' = False\<rparr>
       \<lparr>pathToPfx = None, pathToCert = None, pathToKey = None, passphrase = None\<rparr> = Inr (r0, w)"
    and r: "r = (if keysLength w > 0 then r0\<lparr>wss := Some w\<rparr> else r0)"
    by (rule parseArgs_accepts)
  note s = parseLoop_result [OF l]
  from s have w: "w = \<lparr>pathToPfx = lastValue [''--wss-pfx''] (options argv),
                  pathToCert = lastValue [''--wss-cert''] (options argv),
                  pathToKey = lastValue [''--wss-key''] (options argv),
                  passphrase = lastValue [''--wss-passphrase''] (options argv)\<rparr>"
    by (cases w) (simp split: option.splits)
  from s r show "help' r = (''--help'' \<in> given argv \<or> ''-h'' \<in> given argv)"
    by simp
  from s r show "port r = (case lastValue [''--port'', ''-p''] (options argv) of
                     None \<Rightarrow> Finite 9090 | Some v \<Rightarrow> parseInt v)"
    by (simp split: option.splits)
  from s r have "wss r = (if keysLength w > 0 then Some w else None)" by simp
  then show "wss r =
           (if keysLength
                 \<lparr>pathToPfx = lastValue [''--wss-pfx''] (options argv),
                  pathToCert = lastValue [''--wss-cert''] (options argv),
                  pathToKey = lastValue [''--wss-key''] (options argv),
                  passphrase = lastValue [''--wss-passphrase''] (options argv)\<rparr> > 0
            then Some \<lparr>pathToPfx = lastValue [''--wss-pfx''] (options argv),
                  pathToCert = lastValue [''--wss-cert''] (options argv),
                  pathToKey = lastValue [''--wss-key''] (options argv),
                  passphrase = lastValue [''--wss-passphrase''] (options argv)\<rparr>
            else None)"
    unfolding w [symmetric] .
  from options_values [OF l]
  show "\<forall>(a, v) \<in> set (options argv). takesValue a \<longrightarrow> v \<noteq> None" .
qed

lemma main_rejected:
  "parseArgs parseInt argv = Inl (m, c) \<Longrightarrow>
     main parseInt argv ev = initialProcess\<lparr>stderr := [m], exitCode := Some c\<rparr>"
  by (simp add: main_def run_rejected) (simp add: initialProcess_def)

lemma main_help:
  "parseArgs parseInt argv = Inr parsed \<Longrightarrow> help' parsed \<Longrightarrow>
     main parseInt argv ev = initialProcess\<lparr>stdout := [[Str helpText]], exitCode := Some 0\<rparr>"
  by (simp add: main_def run_help) (simp add: initialProcess_def)

lemma main_create_throws:
  "parseArgs parseInt argv = Inr parsed \<Longrightarrow> \<not> help' parsed \<Longrightarrow> createThrows ev = Some err \<Longrightarrow>
     main parseInt argv ev =
       initialProcess\<lparr>stderr := [[Str ''Error starting server:'', Str err]], exitCode := Some 1\<rparr>"
  by (simp add: main_def run_create_throws)
     (simp add: initialProcess_def console_error_def process_exit_def)

lemma server_starting [simp]:
  "server (starting parsed) = Some \<lparr>port = port parsed, wss = wss parsed\<rparr>"
  "listeners (starting parsed) =
     [''start'', ''portUnavailable'', ''connect'', ''connectionEstablished'',
      ''disconnect'', ''command'', ''stop'']"
  "startCalls (starting parsed) = 1"
  by (simp_all add: starting_def)

lemma main_started:
  assumes "parseArgs parseInt argv = Inr parsed" and "\<not> help' parsed" and "createThrows ev = None"
  shows "main parseInt argv ev =
     (let p = emitAll (port parsed) (wss parsed) (startEmits ev) (starting parsed)
      in if exitCode p \<noteq> None then p
         else case startThrows ev of
                Some err \<Rightarrow> process_exit 1 (console_error [Str ''Error starting server:'', Str err] p)
              | None \<Rightarrow> foldl (\<lambda>q i. deliver (port parsed) (wss parsed) i q) p (inputs ev))"
proof -
  let ?p = "emitAll (port parsed) (wss parsed) (startEmits ev) (starting parsed)"
  have s: "server ?p = Some \<lparr>port = port parsed, wss = wss parsed\<rparr>" by simp
  show ?thesis
  proof (cases "exitCode ?p")
    case None
    then show ?thesis
      unfolding main_def run_starts [OF assms] Let_def
      by (cases "startThrows ev") (simp_all add: s)
  next
    case (Some c)
    then have "foldl (\<lambda>q i. deliver (port parsed) (wss parsed) i q) ?p (inputs ev) = ?p"
      by (simp add: deliver_all_dead)
    with Some show ?thesis
      unfolding main_def run_starts [OF assms] Let_def by (simp add: s)
  qed
qed


lemma main_started_frame:
  assumes "parseArgs parseInt argv = Inr parsed" and "\<not> help' parsed" and "createThrows ev = None"
  shows "server (main parseInt argv ev) = Some \<lparr>port = port parsed, wss = wss parsed\<rparr>"
    and "listeners (main parseInt argv ev) =
           [''start'', ''portUnavailable'', ''connect'', ''connectionEstablished'',
            ''disconnect'', ''command'', ''stop'']"
    and "startCalls (main parseInt argv ev) = 1"
  unfolding main_started [OF assms] Let_def
  by (simp_all split: option.splits)








lemma wss_given_iff:
  assumes "\<forall>(a, v) \<in> set (options argv). takesValue a \<longrightarrow> v \<noteq> None" and "takesValue n"
  shows "(lastValue [n] (options argv) \<noteq> None) = (n \<in> given argv)"
proof -
  from assms have "\<forall>(a, v) \<in> set (options argv). a \<in> set [n] \<longrightarrow> v \<noteq> None"
    by auto
  from lastValue_present [OF this] show ?thesis
    by (auto simp: given_def)
qed

text \<open>
  C2 (amended). For every argument list the parser accepts, the TLS configuration is
  absent exactly when none of \<^verbatim>\<open>--wss-pfx\<close>, \<^verbatim>\<open>--wss-cert\<close>, \<^verbatim>\<open>--wss-key\<close> and
  \<^verbatim>\<open>--wss-passphrase\<close> is given as an option; otherwise it holds exactly the properties
  whose options are given, each with the value of the last occurrence of its option, and
  it is passed to the server as it is. No combination of the four is excluded.
\<close>

theorem tls_forwarded_as_given:
  assumes "parseArgs parseInt argv = Inr parsed"
  shows "(wss parsed = None \<longleftrightarrow> given argv \<inter> wssNames = {})
       \<and> (\<forall>w. wss parsed = Some w \<longrightarrow>
              pathToPfx w = lastValue [''--wss-pfx''] (options argv)
            \<and> pathToCert w = lastValue [''--wss-cert''] (options argv)
            \<and> pathToKey w = lastValue [''--wss-key''] (options argv)
            \<and> passphrase w = lastValue [''--wss-passphrase''] (options argv)
            \<and> (pathToPfx w \<noteq> None) = (''--wss-pfx'' \<in> given argv)
            \<and> (pathToCert w \<noteq> None) = (''--wss-cert'' \<in> given argv)
            \<and> (pathToKey w \<noteq> None) = (''--wss-key'' \<in> given argv)
            \<and> (passphrase w \<noteq> None) = (''--wss-passphrase'' \<in> given argv))
       \<and> (\<not> help' parsed \<and> createThrows ev = None \<longrightarrow>
              server (main parseInt argv ev) = Some \<lparr>port = port parsed, wss = wss parsed\<rparr>)"
proof -
  note s = parseArgs_summary [OF assms]
  let ?w = "\<lparr>pathToPfx = lastValue [''--wss-pfx''] (options argv),
            pathToCert = lastValue [''--wss-cert''] (options argv),
            pathToKey = lastValue [''--wss-key''] (options argv),
            passphrase = lastValue [''--wss-passphrase''] (options argv)\<rparr>"
  have g: "(lastValue [''--wss-pfx''] (options argv) \<noteq> None) = (''--wss-pfx'' \<in> given argv)"
    "(lastValue [''--wss-cert''] (options argv) \<noteq> None) = (''--wss-cert'' \<in> given argv)"
    "(lastValue [''--wss-key''] (options argv) \<noteq> None) = (''--wss-key'' \<in> given argv)"
    "(lastValue [''--wss-passphrase''] (options argv) \<noteq> None) = (''--wss-passphrase'' \<in> given argv)"
    by (rule wss_given_iff [OF s(4)], simp add: takesValue_iff)+
  have k: "(keysLength ?w > 0) = (given argv \<inter> wssNames \<noteq> {})"
    unfolding keysLength_def wssNames_def using g by auto
  from s(3) k have a: "wss parsed = None \<longleftrightarrow> given argv \<inter> wssNames = {}"
    by (simp split: if_splits)
  from s(3) have b: "wss parsed = Some w \<Longrightarrow> w = ?w" for w
    by (simp split: if_splits)
  have c: "\<forall>w. wss parsed = Some w \<longrightarrow>
              pathToPfx w = lastValue [''--wss-pfx''] (options argv)
            \<and> pathToCert w = lastValue [''--wss-cert''] (options argv)
            \<and> pathToKey w = lastValue [''--wss-key''] (options argv)
            \<and> passphrase w = lastValue [''--wss-passphrase''] (options argv)
            \<and> (pathToPfx w \<noteq> None) = (''--wss-pfx'' \<in> given argv)
            \<and> (pathToCert w \<noteq> None) = (''--wss-cert'' \<in> given argv)
            \<and> (pathToKey w \<noteq> None) = (''--wss-key'' \<in> given argv)
            \<and> (passphrase w \<noteq> None) = (''--wss-passphrase'' \<in> given argv)"
  proof (intro allI impI)
    fix w assume "wss parsed = Some w"
    from b [OF this] g show
      "pathToPfx w = lastValue [''--wss-pfx''] (options argv)
            \<and> pathToCert w = lastValue [''--wss-cert''] (options argv)
            \<and> pathToKey w = lastValue [''--wss-key''] (options argv)
            \<and> passphrase w = lastValue [''--wss-passphrase''] (options argv)
            \<and> (pathToPfx w \<noteq> None) = (''--wss-pfx'' \<in> given argv)
            \<and> (pathToCert w \<noteq> None) = (''--wss-cert'' \<in> given argv)
            \<and> (pathToKey w \<noteq> None) = (''--wss-key'' \<in> given argv)
            \<and> (passphrase w \<noteq> None) = (''--wss-passphrase'' \<in> given argv)"
      by simp
  qed
  from a c main_started_frame(1) [OF assms] show ?thesis by blast
qed

theorem tls_forwarded_as_given_witness:
  "parseArgs parseInt10 [''--port'', ''9090'', ''--wss-pfx'', ''./server.pfx'', ''--wss-passphrase'', ''mypass'']
     = Inr \<lparr>port = Finite 9090,
            wss = Some \<lparr>pathToPfx = Some ''./server.pfx'', pathToCert = None, pathToKey = None,
                        passphrase = Some ''mypass''\<rparr>,
            help' = False\<rparr>
   \<and> given [''--port'', ''9090'', ''--wss-pfx'', ''./server.pfx'', ''--wss-passphrase'', ''mypass'']
       \<inter> wssNames \<noteq> {}
   \<and> server (main parseInt10
          [''--port'', ''9090'', ''--wss-pfx'', ''./server.pfx'', ''--wss-passphrase'', ''mypass'']
          \<lparr>createThrows = None, startEmits = [EvStart], startThrows = None, inputs = []\<rparr>)
       = Some \<lparr>port = Finite 9090,
            wss = Some \<lparr>pathToPfx = Some ''./server.pfx'', pathToCert = None, pathToKey = None,
                        passphrase = Some ''mypass''\<rparr>\<rparr>"
proof -
  let ?argv = "[''--port'', ''9090'', ''--wss-pfx'', ''./server.pfx'', ''--wss-passphrase'', ''mypass'']"
  let ?w = "\<lparr>pathToPfx = Some ''./server.pfx'', pathToCert = None, pathToKey = None,
                        passphrase = Some ''mypass''\<rparr>"
  let ?r = "\<lparr>port = Finite 9090, wss = Some ?w, help' = False\<rparr>"
  let ?ev = "\<lparr>createThrows = None, startEmits = [EvStart], startThrows = None, inputs = []\<rparr>"
  have p: "parseArgs parseInt10 ?argv = Inr ?r"
    by code_simp
  note t = tls_forwarded_as_given [OF p, of ?ev]
  from t have "given ?argv \<inter> wssNames \<noteq> {}" by simp
  moreover from t have "server (main parseInt10 ?argv ?ev) = Some \<lparr>port = Finite 9090, wss = Some ?w\<rparr>"
    by simp
  ultimately show ?thesis using p by blast
qed

text \<open>
  As the specification states it, the property fails: a certificate path alone, and a
  certificate and key pair with a passphrase, are accepted and forwarded, and neither is
  one of the three shapes.
\<close>

theorem tls_other_shapes_forwarded:
  "parseArgs parseInt10 [''--wss-cert'', ''./cert.pem'']
     = Inr \<lparr>port = Finite 9090,
            wss = Some \<lparr>pathToPfx = None, pathToCert = Some ''./cert.pem'', pathToKey = None,
                        passphrase = None\<rparr>,
            help' = False\<rparr>
   \<and> server (main parseInt10 [''--wss-cert'', ''./cert.pem'']
          \<lparr>createThrows = None, startEmits = [], startThrows = Some ''no key'', inputs = []\<rparr>)
       = Some \<lparr>port = Finite 9090,
            wss = Some \<lparr>pathToPfx = None, pathToCert = Some ''./cert.pem'', pathToKey = None,
                        passphrase = None\<rparr>\<rparr>
   \<and> \<not> plainShape (Some \<lparr>pathToPfx = None, pathToCert = Some ''./cert.pem'', pathToKey = None,
                        passphrase = None\<rparr>)
   \<and> \<not> pfxShape (Some \<lparr>pathToPfx = None, pathToCert = Some ''./cert.pem'', pathToKey = None,
                        passphrase = None\<rparr>)
   \<and> \<not> certKeyShape (Some \<lparr>pathToPfx = None, pathToCert = Some ''./cert.pem'', pathToKey = None,
                        passphrase = None\<rparr>)
   \<and> parseArgs parseInt10
         [''--wss-cert'', ''./cert.pem'', ''--wss-key'', ''./key.pem'', ''--wss-passphrase'', ''mypass'']
     = Inr \<lparr>port = Finite 9090,
            wss = Some \<lparr>pathToPfx = None, pathToCert = Some ''./cert.pem'',
                        pathToKey = Some ''./key.pem'', passphrase = Some ''mypass''\<rparr>,
            help' = False\<rparr>
   \<and> \<not> plainShape (Some \<lparr>pathToPfx = None, pathToCert = Some ''./cert.pem'',
                        pathToKey = Some ''./key.pem'', passphrase = Some ''mypass''\<rparr>)
   \<and> \<not> pfxShape (Some \<lparr>pathToPfx = None, pathToCert = Some ''./cert.pem'',
                        pathToKey = Some ''./key.pem'', passphrase = Some ''mypass''\<rparr>)
   \<and> \<not> certKeyShape (Some \<lparr>pathToPfx = None, pathToCert = Some ''./cert.pem'',
                        pathToKey = Some ''./key.pem'', passphrase = Some ''mypass''\<rparr>)"
proof -
  have "parseArgs parseInt10 [''--wss-cert'', ''./cert.pem'']
     = Inr \<lparr>port = Finite 9090,
            wss = Some \<lparr>pathToPfx = None, pathToCert = Some ''./cert.pem'', pathToKey = None,
                        passphrase = None\<rparr>,
            help' = False\<rparr>"
    by code_simp
  moreover have "server (main parseInt10 [''--wss-cert'', ''./cert.pem'']
          \<lparr>createThrows = None, startEmits = [], startThrows = Some ''no key'', inputs = []\<rparr>)
       = Some \<lparr>port = Finite 9090,
            wss = Some \<lparr>pathToPfx = None, pathToCert = Some ''./cert.pem'', pathToKey = None,
                        passphrase = None\<rparr>\<rparr>"
    by code_simp
  moreover have "parseArgs parseInt10
         [''--wss-cert'', ''./cert.pem'', ''--wss-key'', ''./key.pem'', ''--wss-passphrase'', ''mypass'']
     = Inr \<lparr>port = Finite 9090,
            wss = Some \<lparr>pathToPfx = None, pathToCert = Some ''./cert.pem'',
                        pathToKey = Some ''./key.pem'', passphrase = Some ''mypass''\<rparr>,
            help' = False\<rparr>"
    by code_simp
  ultimately show ?thesis
    by (simp add: plainShape_def pfxShape_def certKeyShape_def)
qed

text \<open>
  C3. When no port option is given, every accepted argument list is parsed to the port
  9090, any server the process creates is created with the port 9090, and whenever the
  arguments are accepted without a request for help and the server can be created, it is
  created with the port 9090 and started once.
\<close>

theorem default_port:
  assumes "''--port'' \<notin> given argv" and "''-p'' \<notin> given argv"
  shows "(\<forall>parsed. parseArgs parseInt argv = Inr parsed \<longrightarrow> port parsed = Finite 9090)
       \<and> (\<forall>options. server (main parseInt argv ev) = Some options \<longrightarrow> port options = Finite 9090)
       \<and> (\<forall>parsed. parseArgs parseInt argv = Inr parsed \<and> \<not> help' parsed \<and> createThrows ev = None \<longrightarrow>
             server (main parseInt argv ev) = Some \<lparr>port = Finite 9090, wss = wss parsed\<rparr>
           \<and> startCalls (main parseInt argv ev) = 1)"
proof -
  from assms have "set [''--port'', ''-p''] \<inter> fst ` set (options argv) = {}"
    by (auto simp: given_def)
  then have l: "lastValue [''--port'', ''-p''] (options argv) = None"
    by (rule lastValue_absent)
  have a: "port parsed = Finite 9090" if "parseArgs parseInt argv = Inr parsed" for parsed
    using parseArgs_summary(2) [OF that] l by simp
  have b: "port options = Finite 9090" if s: "server (main parseInt argv ev) = Some options" for options
  proof (cases "parseArgs parseInt argv")
    case (Inl e)
    obtain m c where "e = (m, c)" by (cases e)
    with Inl have "parseArgs parseInt argv = Inl (m, c)" by simp
    from main_rejected [OF this] s show ?thesis by (simp add: initialProcess_def)
  next
    case (Inr parsed)
    show ?thesis
    proof (cases "help' parsed")
      case True
      from main_help [OF Inr True] s show ?thesis by (simp add: initialProcess_def)
    next
      case h: False
      show ?thesis
      proof (cases "createThrows ev")
        case None
        from main_started_frame(1) [OF Inr h None] s a [OF Inr] show ?thesis by auto
      next
        case (Some err)
        from main_create_throws [OF Inr h Some] s show ?thesis by (simp add: initialProcess_def)
      qed
    qed
  qed
  have c: "server (main parseInt argv ev) = Some \<lparr>port = Finite 9090, wss = wss parsed\<rparr>
           \<and> startCalls (main parseInt argv ev) = 1"
    if "parseArgs parseInt argv = Inr parsed" and "\<not> help' parsed" and "createThrows ev = None"
    for parsed
    using main_started_frame(1,3) [OF that] a [OF that(1)] by simp
  from a b c show ?thesis by blast
qed

theorem default_port_witness:
  "''--port'' \<notin> given [''--wss-cert'', ''./cert.pem'', ''--wss-key'', ''./key.pem'']
   \<and> ''-p'' \<notin> given [''--wss-cert'', ''./cert.pem'', ''--wss-key'', ''./key.pem'']
   \<and> parseArgs parseInt10 [''--wss-cert'', ''./cert.pem'', ''--wss-key'', ''./key.pem'']
     = Inr \<lparr>port = Finite 9090,
            wss = Some \<lparr>pathToPfx = None, pathToCert = Some ''./cert.pem'',
                        pathToKey = Some ''./key.pem'', passphrase = None\<rparr>,
            help' = False\<rparr>
   \<and> server (main parseInt10 [''--wss-cert'', ''./cert.pem'', ''--wss-key'', ''./key.pem'']
        \<lparr>createThrows = None, startEmits = [EvStart], startThrows = None, inputs = []\<rparr>)
     = Some \<lparr>port = Finite 9090,
              wss = Some \<lparr>pathToPfx = None, pathToCert = Some ''./cert.pem'',
                          pathToKey = Some ''./key.pem'', passphrase = None\<rparr>\<rparr>
   \<and> startCalls (main parseInt10 [''--wss-cert'', ''./cert.pem'', ''--wss-key'', ''./key.pem'']
        \<lparr>createThrows = None, startEmits = [EvStart], startThrows = None, inputs = []\<rparr>) = 1
   \<and> main parseInt10 []
        \<lparr>createThrows = None, startEmits = [EvStart], startThrows = None, inputs = []\<rparr>
     = \<lparr>stdout = [[Str (check_mark @ '' Reactotron server listening on port ''), Num (Finite 9090)]],
        stderr = [], exitCode = None,
        server = Some \<lparr>port = Finite 9090, wss = None\<rparr>,
        listeners = [''start'', ''portUnavailable'', ''connect'', ''connectionEstablished'',
                     ''disconnect'', ''command'', ''stop''],
        signalHandlers = [SIGINT, SIGTERM], startCalls = 1, stopCalls = 0\<rparr>"
proof -
  let ?argv = "[''--wss-cert'', ''./cert.pem'', ''--wss-key'', ''./key.pem'']"
  let ?ev = "\<lparr>createThrows = None, startEmits = [EvStart], startThrows = None, inputs = []\<rparr>"
  let ?w = "Some \<lparr>pathToPfx = None, pathToCert = Some ''./cert.pem'',
                        pathToKey = Some ''./key.pem'', passphrase = None\<rparr>"
  have g: "''--port'' \<notin> given ?argv" "''-p'' \<notin> given ?argv"
    by (simp_all add: given_def takesValue_def)
  have p: "parseArgs parseInt10 ?argv = Inr \<lparr>port = Finite 9090, wss = ?w, help' = False\<rparr>"
    by code_simp
  have m: "main parseInt10 [] ?ev
     = \<lparr>stdout = [[Str (check_mark @ '' Reactotron server listening on port ''), Num (Finite 9090)]],
        stderr = [], exitCode = None,
        server = Some \<lparr>port = Finite 9090, wss = None\<rparr>,
        listeners = [''start'', ''portUnavailable'', ''connect'', ''connectionEstablished'',
                     ''disconnect'', ''command'', ''stop''],
        signalHandlers = [SIGINT, SIGTERM], startCalls = 1, stopCalls = 0\<rparr>"
    by code_simp
  from default_port [OF g, of parseInt10 ?ev] p
  have "server (main parseInt10 ?argv ?ev) = Some \<lparr>port = Finite 9090, wss = ?w\<rparr>
        \<and> startCalls (main parseInt10 ?argv ?ev) = 1"
    by simp
  with g p m show ?thesis by blast
qed

text \<open>
  C7. Whenever \<^verbatim>\<open>run\<close> gets as far as creating the server, it registers a handler under
  each of the seven names \<^verbatim>\<open>start\<close>, \<^verbatim>\<open>portUnavailable\<close>, \<^verbatim>\<open>connect\<close>,
  \<^verbatim>\<open>connectionEstablished\<close>, \<^verbatim>\<open>disconnect\<close>, \<^verbatim>\<open>command\<close> and \<^verbatim>\<open>stop\<close>, the
  implementation's names of the seven lifecycle events of the specification, and it does
  so before it starts the server. Hence every event the server emits, from the start on,
  runs its handler as long as the process is alive.
\<close>

theorem all_lifecycle_events_consumed:
  assumes "parseArgs parseInt argv = Inr parsed" and "\<not> help' parsed" and "createThrows ev = None"
  shows "listeners (fst (run parseInt argv ev))
           = map implName [Listening, PortUnavailable, Connecting, ConnectionEstablished,
                           Disconnected, CommandMessage, Stopped]
       \<and> (\<forall>l. implName l \<in> set (listeners (fst (run parseInt argv ev))))
       \<and> (\<forall>e. eventName e \<in> set (listeners (fst (run parseInt argv ev))))
       \<and> fst (run parseInt argv ev)
           = emitAll (port parsed) (wss parsed) (startEmits ev) (starting parsed)
       \<and> listeners (starting parsed) = listeners (fst (run parseInt argv ev))
       \<and> (\<forall>e p. exitCode p = None \<and> listeners p = listeners (fst (run parseInt argv ev)) \<longrightarrow>
             emit (port parsed) (wss parsed) e p = handler (port parsed) (wss parsed) e p)
       \<and> listeners (main parseInt argv ev) = listeners (fst (run parseInt argv ev))"
proof -
  have r: "fst (run parseInt argv ev)
             = emitAll (port parsed) (wss parsed) (startEmits ev) (starting parsed)"
    by (simp add: run_starts [OF assms])
  have l: "listeners (fst (run parseInt argv ev))
             = [''start'', ''portUnavailable'', ''connect'', ''connectionEstablished'',
                ''disconnect'', ''command'', ''stop'']"
    unfolding r by simp
  have a: "implName x \<in> set (listeners (fst (run parseInt argv ev)))" for x
    unfolding l by (cases x) simp_all
  have b: "eventName e \<in> set (listeners (fst (run parseInt argv ev)))" for e
    unfolding l by (cases e) simp_all
  have c: "emit (port parsed) (wss parsed) e p = handler (port parsed) (wss parsed) e p"
    if "exitCode p = None \<and> listeners p = listeners (fst (run parseInt argv ev))" for e p
    using that b [of e] by (simp add: emit_def)
  have d: "listeners (main parseInt argv ev) = listeners (fst (run parseInt argv ev))"
    unfolding l by (rule main_started_frame(2) [OF assms])
  from l a b r c d show ?thesis by simp
qed

theorem all_lifecycle_events_consumed_witness:
  "parseArgs parseInt10 [''--port'', ''8080''] = Inr \<lparr>port = Finite 8080, wss = None, help' = False\<rparr>
   \<and> listeners (fst (run parseInt10 [''--port'', ''8080'']
        \<lparr>createThrows = None, startEmits = [EvStart], startThrows = None, inputs = []\<rparr>))
     = [''start'', ''portUnavailable'', ''connect'', ''connectionEstablished'',
        ''disconnect'', ''command'', ''stop'']
   \<and> implName Stopped \<in> set (listeners (fst (run parseInt10 [''--port'', ''8080'']
        \<lparr>createThrows = None, startEmits = [EvStart], startThrows = None, inputs = []\<rparr>)))"
proof -
  let ?ev = "\<lparr>createThrows = None, startEmits = [EvStart], startThrows = None, inputs = []\<rparr>"
  let ?r = "\<lparr>port = Finite 8080, wss = None, help' = False\<rparr>"
  have p: "parseArgs parseInt10 [''--port'', ''8080''] = Inr ?r"
    by code_simp
  have h: "\<not> help' ?r" by simp
  have c: "createThrows ?ev = None" by simp
  note t = all_lifecycle_events_consumed [OF p h c]
  have "listeners (fst (run parseInt10 [''--port'', ''8080''] ?ev))
     = map implName [Listening, PortUnavailable, Connecting, ConnectionEstablished,
                     Disconnected, CommandMessage, Stopped]"
    by (rule t [THEN conjunct1])
  then have "listeners (fst (run parseInt10 [''--port'', ''8080''] ?ev))
     = [''start'', ''portUnavailable'', ''connect'', ''connectionEstablished'',
        ''disconnect'', ''command'', ''stop'']"
    by (simp only: list.map implName.simps)
  moreover have
    "implName Stopped \<in> set (listeners (fst (run parseInt10 [''--port'', ''8080''] ?ev)))"
    by (rule t [THEN conjunct2, THEN conjunct1, THEN spec])
  ultimately show ?thesis using p by blast
qed

text \<open>
  C9 (amended). If the argument list is accepted and \<^verbatim>\<open>--help\<close> or \<^verbatim>\<open>-h\<close> is given as
  an option (not as the value of an option before it), the process prints the usage text,
  exits with code 0 and neither creates nor starts a server, whatever the environment
  does.
\<close>

theorem help_exits_without_server:
  assumes "parseArgs parseInt argv = Inr parsed"
    and "''--help'' \<in> given argv \<or> ''-h'' \<in> given argv"
  shows "run parseInt argv ev
           = (\<lparr>stdout = [[Str helpText]], stderr = [], exitCode = Some 0, server = None,
               listeners = [], signalHandlers = [], startCalls = 0, stopCalls = 0\<rparr>, None)
       \<and> main parseInt argv ev
           = \<lparr>stdout = [[Str helpText]], stderr = [], exitCode = Some 0, server = None,
              listeners = [], signalHandlers = [], startCalls = 0, stopCalls = 0\<rparr>"
proof -
  from parseArgs_summary(1) [OF assms(1)] assms(2) have h: "help' parsed" by simp
  from run_help [OF assms(1) h] main_help [OF assms(1) h]
  show ?thesis by (simp add: initialProcess_def)
qed

theorem help_exits_without_server_witness:
  "parseArgs parseInt10 [''--port'', ''8080'', ''-h'']
     = Inr \<lparr>port = Finite 8080, wss = None, help' = True\<rparr>
   \<and> ''-h'' \<in> given [''--port'', ''8080'', ''-h'']
   \<and> main parseInt10 [''--port'', ''8080'', ''-h'']
        \<lparr>createThrows = None, startEmits = [EvStart], startThrows = None,
         inputs = [Emit EvConnect]\<rparr>
     = \<lparr>stdout = [[Str helpText]], stderr = [], exitCode = Some 0, server = None,
        listeners = [], signalHandlers = [], startCalls = 0, stopCalls = 0\<rparr>"
proof -
  let ?argv = "[''--port'', ''8080'', ''-h'']"
  have p: "parseArgs parseInt10 ?argv = Inr \<lparr>port = Finite 8080, wss = None, help' = True\<rparr>"
    by code_simp
  have g: "''-h'' \<in> given ?argv"
    by (simp add: given_def takesValue_def)
  then have "''--help'' \<in> given ?argv \<or> ''-h'' \<in> given ?argv" ..
  from help_exits_without_server [OF p this] p g show ?thesis by blast
qed

text \<open>
  As the specification states it, for a list that merely contains \<^verbatim>\<open>--help\<close>, the
  property fails: in \<^verbatim>\<open>--wss-pfx --help\<close> the token is taken as the path of the bundle,
  no usage text is printed, and the server is created and started.
\<close>

theorem help_as_value_starts_server:
  "parseArgs parseInt10 [''--wss-pfx'', ''--help'']
     = Inr \<lparr>port = Finite 9090,
            wss = Some \<lparr>pathToPfx = Some ''--help'', pathToCert = None, pathToKey = None,
                        passphrase = None\<rparr>,
            help' = False\<rparr>
   \<and> ''--help'' \<in> set [''--wss-pfx'', ''--help'']
   \<and> main parseInt10 [''--wss-pfx'', ''--help'']
        \<lparr>createThrows = None, startEmits = [], startThrows = Some ''ENOENT'', inputs = []\<rparr>
     = \<lparr>stdout = [], stderr = [[Str ''Error starting server:'', Str ''ENOENT'']],
        exitCode = Some 1,
        server = Some \<lparr>port = Finite 9090,
            wss = Some \<lparr>pathToPfx = Some ''--help'', pathToCert = None, pathToKey = None,
                        passphrase = None\<rparr>\<rparr>,
        listeners = [''start'', ''portUnavailable'', ''connect'', ''connectionEstablished'',
                     ''disconnect'', ''command'', ''stop''],
        signalHandlers = [SIGINT, SIGTERM], startCalls = 1, stopCalls = 0\<rparr>"
proof -
  have "parseArgs parseInt10 [''--wss-pfx'', ''--help'']
     = Inr \<lparr>port = Finite 9090,
            wss = Some \<lparr>pathToPfx = Some ''--help'', pathToCert = None, pathToKey = None,
                        passphrase = None\<rparr>,
            help' = False\<rparr>"
    by code_simp
  moreover have "main parseInt10 [''--wss-pfx'', ''--help'']
        \<lparr>createThrows = None, startEmits = [], startThrows = Some ''ENOENT'', inputs = []\<rparr>
     = \<lparr>stdout = [], stderr = [[Str ''Error starting server:'', Str ''ENOENT'']],
        exitCode = Some 1,
        server = Some \<lparr>port = Finite 9090,
            wss = Some \<lparr>pathToPfx = Some ''--help'', pathToCert = None, pathToKey = None,
                        passphrase = None\<rparr>\<rparr>,
        listeners = [''start'', ''portUnavailable'', ''connect'', ''connectionEstablished'',
                     ''disconnect'', ''command'', ''stop''],
        signalHandlers = [SIGINT, SIGTERM], startCalls = 1, stopCalls = 0\<rparr>"
    by code_simp
  ultimately show ?thesis by simp
qed

end
